theory Spec2Isabelle
  imports Main "HOL-Library.AList" "HOL-Library.Product_Lexorder"
begin

section \<open>Python strings\<close>

text \<open>
  A Python \<open>str\<close> is a sequence of code points. A \<^typ>\<open>char\<close> stands for a code point
  below 256 here, so a \<^typ>\<open>string\<close> is a \<open>str\<close> over that range and \<^const>\<open>length\<close>
  counts code points.
\<close>

definition isspace :: "char \<Rightarrow> bool" where
  \<comment> \<open>\<open>str.isspace\<close> on one code point below 256: TAB..CR, FS..US, SPACE, NEL, NBSP.\<close>
  "isspace c =
     (let n = (of_char c :: nat)
      in (9 \<le> n \<and> n \<le> 13) \<or> (28 \<le> n \<and> n \<le> 32) \<or> n = 133 \<or> n = 160)"

definition strip :: "string \<Rightarrow> string" where
  \<comment> \<open>\<open>s.strip()\<close>\<close>
  "strip s = rev (dropWhile isspace (rev (dropWhile isspace s)))"

definition strip_chars :: "string \<Rightarrow> string \<Rightarrow> string" where
  \<comment> \<open>\<open>s.strip(chars)\<close>\<close>
  "strip_chars s chars =
     rev (dropWhile (\<lambda>c. c \<in> set chars) (rev (dropWhile (\<lambda>c. c \<in> set chars) s)))"

fun startswith :: "string \<Rightarrow> string \<Rightarrow> bool" where
  \<comment> \<open>\<open>s.startswith(p)\<close>\<close>
  "startswith s [] = True"
| "startswith [] (p # ps) = False"
| "startswith (c # cs) (p # ps) = (c = p \<and> startswith cs ps)"

fun py_in :: "string \<Rightarrow> string \<Rightarrow> bool" where
  \<comment> \<open>\<open>sub in s\<close>\<close>
  "py_in sub [] = (sub = [])"
| "py_in sub (c # cs) = (startswith (c # cs) sub \<or> py_in sub cs)"

fun py_find :: "string \<Rightarrow> string \<Rightarrow> int" where
  \<comment> \<open>\<open>s.find(sub)\<close>: the lowest index where \<open>sub\<close> starts, \<open>-1\<close> when there is none\<close>
  "py_find [] sub = (if sub = [] then 0 else - 1)"
| "py_find (c # cs) sub =
     (if startswith (c # cs) sub then 0
      else (let i = py_find cs sub in if i < 0 then - 1 else i + 1))"

definition occurs_at :: "string \<Rightarrow> string \<Rightarrow> nat \<Rightarrow> bool" where
  \<comment> \<open>\<open>sub\<close> occurs in \<open>s\<close> starting at index \<open>i\<close>\<close>
  "occurs_at sub s i = (i \<le> length s \<and> startswith (drop i s) sub)"


section \<open>Splitting a module spec\<close>

text \<open>
  \<^verbatim>\<open>
  def split_module_spec(spec):
      for splitter in chain(version.OPERATORS, (" ", "@")):
          if splitter in spec:
              splitter_loc = spec.find(splitter)
              if splitter_loc < 0:
                  continue
              module_name = spec[:splitter_loc].strip()
              version_spec = spec[splitter_loc:].strip()
              return module_name, version_spec
      return spec, None
  \<close>
  The tuple \<open>version.OPERATORS\<close> is declared in \<open>atopile/version.py\<close>, which is not among
  the sources at hand; it is the first argument of the model.
\<close>

fun split_loop :: "string list \<Rightarrow> string \<Rightarrow> string \<times> string option" where
  "split_loop [] spec = (spec, None)"
| "split_loop (splitter # rest) spec =
     (if py_in splitter spec then
        (let splitter_loc = py_find spec splitter in
         if splitter_loc < 0 then split_loop rest spec
         else (strip (take (nat splitter_loc) spec),
               Some (strip (drop (nat splitter_loc) spec))))
      else split_loop rest spec)"

definition split_module_spec :: "string list \<Rightarrow> string \<Rightarrow> string \<times> string option" where
  "split_module_spec OPERATORS spec = split_loop (OPERATORS @ ['' '', ''@'']) spec"

text \<open>
  The splitter as the specification words it: the split point is the leftmost position at
  which any candidate token occurs, whatever the token's rank among the candidates.
\<close>

fun leftmost_loc :: "string list \<Rightarrow> string \<Rightarrow> int option" where
  "leftmost_loc [] spec = None"
| "leftmost_loc (t # ts) spec =
     (let i = py_find spec t in
      case leftmost_loc ts spec of
        None \<Rightarrow> (if i < 0 then None else Some i)
      | Some j \<Rightarrow> (if i < 0 then Some j else Some (min i j)))"

definition split_leftmost :: "string list \<Rightarrow> string \<Rightarrow> string \<times> string option" where
  "split_leftmost OPERATORS spec =
     (case leftmost_loc (OPERATORS @ ['' '', ''@'']) spec of
        None \<Rightarrow> (spec, None)
      | Some i \<Rightarrow> (strip (take (nat i) spec), Some (strip (drop (nat i) spec))))"

text \<open>
  An operator tuple for the closed instances below: the wildcard, the caret and tilde
  ranges and the comparison operators, two-character operators before their one-character
  prefixes.
\<close>

definition example_operators :: "string list" where
  "example_operators = [''*'', ''^'', ''~'', ''!'', ''=='', ''>='', ''<='', ''>'', ''<'']"


section \<open>Errors and returned values\<close>

datatype error =
    AtoError string
  | ConfigError
  | GitCommandError
  | InvalidGitRepositoryError
  | FileNotFoundError
  | ValueError
  | KeyError
  | UnboundLocalError

text \<open>
  What \<open>install_dependency\<close> can hand back: \<open>None\<close>, a \<open>version.Version\<close> (its
  annotated result) or a tag reference of the repository, written as the tag's name.
\<close>

datatype 'v pyval = PyNone | PyVersion 'v | PyTagRef string


section \<open>The manifest\<close>

text \<open>
  The parsed \<open>ato.yaml\<close>: the list under the key \<open>dependencies\<close> (\<open>None\<close> when the key
  is absent) and every other key. An empty file loads as the mapping without keys.
\<close>

record 'o manifest =
  dependencies :: "string list option"
  other_keys :: 'o

record 'o project_files =
  ato_yaml :: "'o manifest option"  \<comment> \<open>\<open>None\<close>: there is no \<open>ato.yaml\<close>\<close>
  yaml_writes :: nat  \<comment> \<open>how often \<open>ato.yaml\<close> has been rewritten\<close>

definition dependencies_by_name :: "string list \<Rightarrow> string list \<Rightarrow> (string \<rightharpoonup> string)" where
  \<comment> \<open>\<open>{split_module_spec(x)[0]: x for x in dependencies}\<close>: a later entry overrides\<close>
  "dependencies_by_name OPERATORS deps =
     fold (\<lambda>x d. d(fst (split_module_spec OPERATORS x) \<mapsto> x)) deps Map.empty"

definition remove_existing :: "string list \<Rightarrow> string \<Rightarrow> string list \<Rightarrow> error + string list" where
  \<comment> \<open>lines 91 to 95; \<open>list.remove\<close> raises \<open>ValueError\<close> on an absent element\<close>
  "remove_existing OPERATORS module_spec deps =
     (let module_to_install = fst (split_module_spec OPERATORS module_spec) in
      case dependencies_by_name OPERATORS deps module_to_install of
        None \<Rightarrow> Inr deps
      | Some existing_spec \<Rightarrow>
          if existing_spec \<noteq> module_spec then
            (if existing_spec \<in> set deps then Inr (remove1 existing_spec deps)
             else Inl ValueError)
          else Inr deps)"

definition updated_dependencies ::
  "string list \<Rightarrow> string \<Rightarrow> string list \<Rightarrow> error + (string list \<times> bool)" where
  \<comment> \<open>lines 91 to 98: the list the function ends with, and whether it reached the write\<close>
  "updated_dependencies OPERATORS module_spec deps =
     (case remove_existing OPERATORS module_spec deps of
        Inl e \<Rightarrow> Inl e
      | Inr deps1 \<Rightarrow>
          if module_spec \<notin> set deps1 then Inr (deps1 @ [module_spec], True)
          else Inr (deps1, False))"

definition set_dependency_to_ato_yaml ::
  "string list \<Rightarrow> string \<Rightarrow> string \<Rightarrow> 'o project_files \<Rightarrow> (error + unit) \<times> 'o project_files" where
  "set_dependency_to_ato_yaml OPERATORS top_level_path module_spec fs =
     (case ato_yaml fs of
        None \<Rightarrow> (Inl (AtoError (''ato.yaml not found in '' @ top_level_path)), fs)
      | Some data \<Rightarrow>
          (let deps = (case dependencies data of None \<Rightarrow> [] | Some ds \<Rightarrow> ds) in
           case updated_dependencies OPERATORS module_spec deps of
             Inl e \<Rightarrow> (Inl e, fs)
           | Inr (deps', write) \<Rightarrow>
               if write then
                 (Inr (), fs\<lparr>ato_yaml := Some (data\<lparr>dependencies := Some deps'\<rparr>),
                             yaml_writes := Suc (yaml_writes fs)\<rparr>)
               else (Inr (), fs)))"

definition names_of :: "string list \<Rightarrow> string list \<Rightarrow> string list" where
  \<comment> \<open>the package name of every entry, in order\<close>
  "names_of OPERATORS deps = map (\<lambda>x. fst (split_module_spec OPERATORS x)) deps"

definition listed :: "'o project_files \<Rightarrow> string list" where
  \<comment> \<open>the dependency list of the manifest on disk\<close>
  "listed fs =
     (case ato_yaml fs of None \<Rightarrow> []
      | Some data \<Rightarrow> (case dependencies data of None \<Rightarrow> [] | Some ds \<Rightarrow> ds))"


section \<open>Installing a dependency\<close>

text \<open>
  The functions of \<open>atopile/version.py\<close> that \<open>install.py\<close> calls; the module is not among
  the sources at hand, so they are arguments of the model. \<open>parse\<close> returns \<open>None\<close> where
  \<open>version.parse\<close> raises \<open>AtoError\<close>. A \<open>Version\<close> is compared by the order of its type
  and, having neither \<open>__bool__\<close> nor \<open>__len__\<close>, counts as true in a condition.
\<close>

record 'v version =
  OPERATORS :: "string list"
  parse :: "string \<Rightarrow> 'v option"
  match :: "string \<Rightarrow> 'v \<Rightarrow> bool"

text \<open>
  The calls into GitPython, on a repository state \<open>'r\<close> with commits \<open>'c\<close>. An operation
  that runs git returns \<open>None\<close> where it raises \<open>GitCommandError\<close>; a tag reference is
  written as its name, which is also the text \<open>git checkout\<close> receives for it.
\<close>

record ('r, 'c) git =
  clone_from :: "string \<Rightarrow> 'r option"
  fetch :: "'r \<Rightarrow> 'r option"
  tag_names :: "'r \<Rightarrow> string list"
  is_dirty :: "'r \<Rightarrow> bool"
  head_commit :: "'r \<Rightarrow> 'c"
  checkout :: "'r \<Rightarrow> string \<Rightarrow> 'r option"

datatype git_call = Clone string | Fetch string | Checkout string string

datatype level = INFO | WARNING

text \<open>
  The project on disk and what the run has done so far. \<open>modules\<close> is the module directory:
  \<open>None\<close> while it does not exist, otherwise the valid repository found under each name.
\<close>

record 'r world =
  config_ok :: bool  \<comment> \<open>\<open>config.get_project_config_from_path\<close> succeeds\<close>
  modules :: "(string \<rightharpoonup> 'r) option"
  git_calls :: "git_call list"
  logged :: "(level \<times> string) list"

definition log_to :: "level \<Rightarrow> string \<Rightarrow> 'r world \<Rightarrow> 'r world" where
  "log_to lv msg w = w\<lparr>logged := logged w @ [(lv, msg)]\<rparr>"

definition call_git :: "git_call \<Rightarrow> 'r world \<Rightarrow> 'r world" where
  "call_git c w = w\<lparr>git_calls := git_calls w @ [c]\<rparr>"

definition module_dir :: "'r world \<Rightarrow> (string \<rightharpoonup> 'r)" where
  "module_dir w = (case modules w of None \<Rightarrow> Map.empty | Some m \<Rightarrow> m)"

definition store_repo :: "string \<Rightarrow> 'r \<Rightarrow> 'r world \<Rightarrow> 'r world" where
  "store_repo module_name r w = w\<lparr>modules := Some ((module_dir w)(module_name \<mapsto> r))\<rparr>"

definition open_repo ::
  "('r, 'c) git \<Rightarrow> string \<Rightarrow> bool \<Rightarrow> 'r world \<Rightarrow> (error + 'r option) \<times> 'r world" where
  \<comment> \<open>lines 116 to 140; \<open>Inr None\<close> is the early \<open>return\<close>\<close>
  "open_repo g module_name upgrade w =
     (if \<not> config_ok w then (Inl ConfigError, w)
      else
        let w1 = w\<lparr>modules := Some (module_dir w)\<rparr> in
        case module_dir w module_name of
          None \<Rightarrow>
            (let clone_url = ''https://gitlab.atopile.io/packages/'' @ module_name;
                 w2 = call_git (Clone clone_url)
                        (log_to INFO (''Installing dependency '' @ module_name) w1)
             in case clone_from g clone_url of
                  None \<Rightarrow> (Inl GitCommandError, w2)
                | Some repo \<Rightarrow> (Inr (Some repo), store_repo module_name repo w2))
        | Some repo \<Rightarrow>
            if upgrade then
              (let w2 = call_git (Fetch module_name)
                          (log_to INFO (''Fetching latest changes for '' @ module_name) w1)
               in case fetch g repo of
                    None \<Rightarrow> (Inl GitCommandError, w2)
                  | Some repo' \<Rightarrow> (Inr (Some repo'), store_repo module_name repo' w2))
            else
              (Inr None,
               log_to INFO
                 (module_name @ '' already exists. If you wish to upgrade, use --upgrade'') w1))"

definition semver_to_tag :: "(string \<Rightarrow> 'v option) \<Rightarrow> string list \<Rightarrow> ('v \<times> string) list" where
  \<comment> \<open>lines 143 to 149: a dict in insertion order; the logger's level is \<open>INFO\<close>, so the
      \<open>log.debug\<close> of a skipped tag leaves no record\<close>
  "semver_to_tag prs tags =
     fold (\<lambda>tag d. case prs tag of None \<Rightarrow> d | Some v \<Rightarrow> AList.update v tag d) tags []"

fun py_max :: "'a::linorder list \<Rightarrow> error + 'a" where
  \<comment> \<open>\<open>max(xs)\<close>: \<open>ValueError\<close> on an empty list, else the first greatest element\<close>
  "py_max [] = Inl ValueError"
| "py_max (x # xs) = Inr (fold (\<lambda>y m. if m < y then y else m) xs x)"

definition select_checkout ::
  "('v::linorder) version \<Rightarrow> string \<Rightarrow> string list \<Rightarrow> 'r world
     \<Rightarrow> (error + (string option \<times> 'v option)) \<times> 'r world" where
  \<comment> \<open>lines 151 to 163: \<open>best_checkout\<close> (\<open>None\<close> while unbound) and \<open>installed_semver\<close>\<close>
  "select_checkout ver module_spec tags w =
     (let d = semver_to_tag (parse ver) tags in
      if py_in ''@'' module_spec then
        (Inr (Some (strip_chars (strip module_spec) ''@''), None), w)
      else if d \<noteq> [] then
        (let valid_versions = filter (match ver module_spec) (map fst d) in
         case py_max valid_versions of
           Inl e \<Rightarrow> (Inl e, w)
         | Inr installed_semver \<Rightarrow>
             (case map_of d installed_semver of
                None \<Rightarrow> (Inl KeyError, w)
              | Some tag \<Rightarrow> (Inr (Some tag, Some installed_semver), w)))
      else
        (Inr (None, None),
         log_to WARNING
           ''No semver tags found for this module. Using latest default branch :hot_pepper:.'' w))"

definition checkout_best ::
  "('r, 'c) git \<Rightarrow> string \<Rightarrow> 'r \<Rightarrow> string option \<Rightarrow> 'v option \<Rightarrow> 'r world
     \<Rightarrow> (error + 'v pyval) \<times> 'r world" where
  \<comment> \<open>lines 165 to 186\<close>
  "checkout_best g module_name repo best_checkout installed_semver w =
     (if is_dirty g repo then
        (Inl (AtoError (''Module '' @ module_name @ '' has uncommitted changes. Aborting.'')), w)
      else
        let commit_before_checkout = head_commit g repo in
        case best_checkout of
          None \<Rightarrow> (Inl UnboundLocalError, w)
        | Some target \<Rightarrow>
            (let w1 = call_git (Checkout module_name target) w in
             case checkout g repo target of
               None \<Rightarrow> (Inl GitCommandError, w1)
             | Some repo' \<Rightarrow>
                 (let w2 = store_repo module_name repo' w1;
                      w3 = (if head_commit g repo' = commit_before_checkout then
                              log_to INFO (''Already on the best option ([cyan bold]'' @ target
                                @ ''[/]) for '' @ module_name) w2
                            else
                              log_to INFO (''Using :sparkles: [cyan bold]'' @ target
                                @ ''[/] :sparkles: of '' @ module_name) w2)
                  in case installed_semver of
                       Some v \<Rightarrow> (Inr (PyTagRef target), w3)
                     | None \<Rightarrow> (Inr PyNone, w3))))"

definition default_spec :: "string option \<Rightarrow> string" where
  \<comment> \<open>\<open>if not module_spec: module_spec = "*"\<close>\<close>
  "default_spec module_spec =
     (case module_spec of None \<Rightarrow> ''*'' | Some s \<Rightarrow> if s = [] then ''*'' else s)"

definition install_dependency ::
  "('r, 'c) git \<Rightarrow> ('v::linorder) version \<Rightarrow> string \<Rightarrow> bool \<Rightarrow> 'r world
     \<Rightarrow> (error + 'v pyval) \<times> 'r world" where
  "install_dependency g ver module upgrade w =
     (let module_name = fst (split_module_spec (OPERATORS ver) module);
          module_spec = default_spec (snd (split_module_spec (OPERATORS ver) module))
      in case open_repo g module_name upgrade w of
           (Inl e, w1) \<Rightarrow> (Inl e, w1)
         | (Inr None, w1) \<Rightarrow> (Inr PyNone, w1)
         | (Inr (Some repo), w1) \<Rightarrow>
             (case select_checkout ver module_spec (tag_names g repo) w1 of
                (Inl e, w2) \<Rightarrow> (Inl e, w2)
              | (Inr (best_checkout, installed_semver), w2) \<Rightarrow>
                  checkout_best g module_name repo best_checkout installed_semver w2))"


section \<open>Installing a footprint\<close>

definition upper_char :: "char \<Rightarrow> string" where
  \<comment> \<open>\<open>str.upper\<close> on one code point below 256. The capitals of U+00B5 and U+00FF lie
      beyond 255 and are not letters \<open>C\<close> or digits either: the two stay as they are.\<close>
  "upper_char c =
     (let n = (of_char c :: nat) in
      if 97 \<le> n \<and> n \<le> 122 then [char_of (n - 32)]
      else if n = 223 then ''SS''
      else if 224 \<le> n \<and> n \<le> 254 \<and> n \<noteq> 247 then [char_of (n - 32)]
      else [c])"

definition upper :: "string \<Rightarrow> string" where
  \<comment> \<open>\<open>s.upper()\<close>\<close>
  "upper s = concat (map upper_char s)"

definition isdigit_char :: "char \<Rightarrow> bool" where
  \<comment> \<open>\<open>str.isdigit\<close> on one code point below 256: 0 to 9 and the superscripts 2, 3, 1\<close>
  "isdigit_char c =
     (let n = (of_char c :: nat) in (48 \<le> n \<and> n \<le> 57) \<or> n = 178 \<or> n = 179 \<or> n = 185)"

definition isdigit :: "string \<Rightarrow> bool" where
  \<comment> \<open>\<open>s.isdigit()\<close>: false on the empty string\<close>
  "isdigit s = (s \<noteq> [] \<and> list_all isdigit_char s)"

text \<open>
  What \<open>install_jlcpcb\<close> meets outside the process: the repository enclosing the working
  directory (\<open>None\<close> when there is none; its working tree directory and the url of its
  remote, \<open>None\<close> when it has no remote) and the run of the conversion tool (\<open>None\<close> when
  it cannot be started; its return code, stdout and stderr).
\<close>

record jlc_env =
  enclosing_repo :: "(string \<times> string option) option"
  run_tool :: "string list \<Rightarrow> (int \<times> string \<times> string) option"

datatype action = OpenRepo | ReadRemoteUrl | LogInfo string | Run "string list" | Print string

definition install_jlcpcb :: "jlc_env \<Rightarrow> string \<Rightarrow> (error + unit) \<times> action list" where
  "install_jlcpcb env cid =
     (let component_id = upper cid in
      if \<not> startswith component_id ''C'' \<or> \<not> isdigit (drop 1 component_id) then
        (Inl (AtoError (''Component id '' @ component_id @ '' is invalid. Aborting.'')), [])
      else
        case enclosing_repo env of
          None \<Rightarrow> (Inl InvalidGitRepositoryError, [OpenRepo])
        | Some (top_level_path, remote) \<Rightarrow>
            (case remote of
               None \<Rightarrow> (Inl ValueError, [OpenRepo, ReadRemoteUrl])
             | Some remote_url \<Rightarrow>
                 (let footprints_dir =
                        (if remote_url = ''git@gitlab.atopile.io:atopile/modules.git''
                         then top_level_path @ ''/footprints''
                         else top_level_path @ ''/elec/footprints/footprints'');
                      command =
                        [''easyeda2kicad'', ''--full'', ''--lcsc_id='' @ component_id,
                         ''--output='' @ footprints_dir, ''--overwrite'', ''--ato'',
                         ''--ato_file_path='' @ top_level_path @ ''/elec/src''];
                      done = [OpenRepo, ReadRemoteUrl,
                              LogInfo (''Footprints directory: '' @ footprints_dir), Run command]
                  in case run_tool env command of
                       None \<Rightarrow> (Inl FileNotFoundError, done)
                     | Some (returncode, out, err) \<Rightarrow>
                         (let printed = done @ [Print (''STDOUT: '' @ out),
                                                Print (''STDERR: '' @ err)]
                          in if returncode = 0 then
                               (Inr (), printed @ [Print ''Command executed successfully''])
                             else
                               (Inl (AtoError (''Couldn'' @ [CHR 0x27]
                                                @ ''t install component'')), printed)))))"

text \<open>The pattern of the specification: the letter \<open>C\<close>, then one or more of 0 to 9.\<close>

definition ascii_digit :: "char \<Rightarrow> bool" where
  "ascii_digit c = (let n = (of_char c :: nat) in 48 \<le> n \<and> n \<le> 57)"

definition matches_C_digits :: "string \<Rightarrow> bool" where
  "matches_C_digits s =
     (case s of [] \<Rightarrow> False | c # ds \<Rightarrow> c = CHR ''C'' \<and> ds \<noteq> [] \<and> list_all ascii_digit ds)"


section \<open>A small instance\<close>

text \<open>
  A version module and a git backend to run the functions on: versions are triples in
  lexicographic order, three tag names parse, the caret range of 1.0.0 holds the versions
  from 1.0.0 up to 2.0.0 exclusive, and the wildcard holds every version.
\<close>

definition example_parse :: "string \<Rightarrow> (nat \<times> nat \<times> nat) option" where
  "example_parse =
     map_of [(''1.0.0'', (1, 0, 0)), (''1.2.0'', (1, 2, 0)), (''2.0.0'', (2, 0, 0))]"

definition example_match :: "string \<Rightarrow> nat \<times> nat \<times> nat \<Rightarrow> bool" where
  "example_match constraint v =
     (constraint = ''*'' \<or> (constraint = ''^1.0.0'' \<and> (1, 0, 0) \<le> v \<and> v < (2, 0, 0)))"

definition example_version :: "(nat \<times> nat \<times> nat) version" where
  "example_version =
     \<lparr>OPERATORS = example_operators, parse = example_parse, match = example_match\<rparr>"

record example_repo =
  repo_tags :: "string list"
  repo_dirty :: bool
  repo_head :: string

definition example_git :: "(example_repo, string) git" where
  "example_git =
     \<lparr>clone_from = (\<lambda>url. if url = ''https://gitlab.atopile.io/packages/bare''
                          then Some \<lparr>repo_tags = [], repo_dirty = False, repo_head = ''main''\<rparr>
                          else None),
      fetch = Some,
      tag_names = repo_tags,
      is_dirty = repo_dirty,
      head_commit = repo_head,
      checkout = (\<lambda>r target. Some (r\<lparr>repo_head := target\<rparr>))\<rparr>"

definition example_world :: "example_repo world" where
  "example_world =
     \<lparr>config_ok = True,
      modules = Some [''pkg'' \<mapsto> \<lparr>repo_tags = [''1.0.0'', ''1.2.0'', ''2.0.0''],
                                  repo_dirty = False, repo_head = ''main''\<rparr>,
                      ''edited'' \<mapsto> \<lparr>repo_tags = [''1.0.0''],
                                     repo_dirty = True, repo_head = ''main''\<rparr>,
                      ''untagged'' \<mapsto> \<lparr>repo_tags = [''nightly''],
                                       repo_dirty = False, repo_head = ''main''\<rparr>],
      git_calls = [],
      logged = []\<rparr>"


text \<open>
  Two manifests: one with a single entry per name, one that lists \<open>pkg\<close> twice.
\<close>

definition example_files :: "unit project_files" where
  "example_files =
     \<lparr>ato_yaml = Some \<lparr>dependencies = Some [''other>=1.0'', ''pkg^1.0.0''], other_keys = ()\<rparr>,
      yaml_writes = 0\<rparr>"

definition duplicate_files :: "unit project_files" where
  "duplicate_files =
     \<lparr>ato_yaml = Some \<lparr>dependencies = Some [''pkg^1.0.0'', ''pkg^2.0.0''], other_keys = ()\<rparr>,
      yaml_writes = 0\<rparr>"


text \<open>
  A working directory inside a repository with a remote, and a conversion tool that succeeds.
\<close>

definition example_env :: jlc_env where
  "example_env =
     \<lparr>enclosing_repo = Some (''/proj'', Some ''git@example.com:me/board.git''),
      run_tool = (\<lambda>command. Some (0, ''done'', ''''))\<rparr>"


section \<open>Properties of the splitter\<close>

lemma occurs_at_Cons_Suc: "occurs_at sub (c # cs) (Suc j) = occurs_at sub cs j"
  by (simp add: occurs_at_def)

lemma occurs_at_0: "occurs_at sub s 0 = startswith s sub"
  by (simp add: occurs_at_def)

lemma startswith_Nil: "startswith [] sub = (sub = [])"
  by (cases sub) simp_all

lemma py_in_iff: "py_in sub s \<longleftrightarrow> (\<exists>i. occurs_at sub s i)"
proof (induction s)
  case Nil
  then show ?case by (simp add: occurs_at_def startswith_Nil)
next
  case (Cons c cs)
  show ?case
  proof
    assume "py_in sub (c # cs)"
    then consider "startswith (c # cs) sub" | "py_in sub cs" by auto
    then show "\<exists>i. occurs_at sub (c # cs) i"
    proof cases
      case 1
      then have "occurs_at sub (c # cs) 0" by (simp add: occurs_at_0)
      then show ?thesis ..
    next
      case 2
      with Cons.IH obtain j where "occurs_at sub cs j" by blast
      then have "occurs_at sub (c # cs) (Suc j)" by (simp add: occurs_at_Cons_Suc)
      then show ?thesis ..
    qed
  next
    assume "\<exists>i. occurs_at sub (c # cs) i"
    then obtain i where i: "occurs_at sub (c # cs) i" ..
    show "py_in sub (c # cs)"
    proof (cases i)
      case 0
      with i show ?thesis by (simp add: occurs_at_0)
    next
      case (Suc j)
      with i have "occurs_at sub cs j" by (simp add: occurs_at_Cons_Suc)
      with Cons.IH show ?thesis by auto
    qed
  qed
qed

lemma py_find_least:
  "occurs_at sub s i \<Longrightarrow> (\<forall>j<i. \<not> occurs_at sub s j) \<Longrightarrow> py_find s sub = int i"
proof (induction s arbitrary: i)
  case Nil
  then show ?case by (simp add: occurs_at_def startswith_Nil)
next
  case (Cons c cs)
  show ?case
  proof (cases i)
    case 0
    with Cons.prems show ?thesis by (simp add: occurs_at_0)
  next
    case (Suc k)
    with Cons.prems have nostart: "\<not> startswith (c # cs) sub"
      by (auto simp: occurs_at_0 [symmetric])
    from Suc Cons.prems have k: "occurs_at sub cs k"
      by (simp add: occurs_at_Cons_Suc)
    have "\<forall>j<k. \<not> occurs_at sub cs j"
    proof (intro allI impI)
      fix j assume "j < k"
      with Suc have "Suc j < i" by simp
      with Cons.prems have "\<not> occurs_at sub (c # cs) (Suc j)" by blast
      then show "\<not> occurs_at sub cs j" by (simp add: occurs_at_Cons_Suc)
    qed
    with k have "py_find cs sub = int k" by (rule Cons.IH)
    with nostart Suc show ?thesis by simp
  qed
qed

lemma py_find_nonneg_iff: "0 \<le> py_find s sub \<longleftrightarrow> py_in sub s"
  by (induction s) (auto simp: Let_def)

lemma split_loop_none:
  "\<forall>t\<in>set cands. \<not> py_in t spec \<Longrightarrow> split_loop cands spec = (spec, None)"
  by (induction cands) simp_all

lemma split_loop_skip:
  "\<forall>t\<in>set pre. \<not> py_in t spec \<Longrightarrow> split_loop (pre @ rest) spec = split_loop rest spec"
  by (induction pre) simp_all

lemma split_loop_hit:
  assumes "occurs_at t spec i" and "\<forall>j<i. \<not> occurs_at t spec j"
  shows "split_loop (t # rest) spec = (strip (take i spec), Some (strip (drop i spec)))"
proof -
  from assms have f: "py_find spec t = int i" by (rule py_find_least)
  from assms(1) have "py_in t spec" by (auto simp: py_in_iff)
  with f show ?thesis by simp
qed

lemma split_module_spec_first:
  assumes "ops @ ['' '', ''@''] = pre @ t # post"
    and "\<forall>p\<in>set pre. \<not> py_in p spec"
    and "occurs_at t spec i" and "\<forall>j<i. \<not> occurs_at t spec j"
  shows "split_module_spec ops spec = (strip (take i spec), Some (strip (drop i spec)))"
proof -
  have "split_module_spec ops spec = split_loop (pre @ t # post) spec"
    by (simp add: split_module_spec_def assms(1))
  also have "\<dots> = split_loop (t # post) spec"
    using assms(2) by (rule split_loop_skip)
  also have "\<dots> = (strip (take i spec), Some (strip (drop i spec)))"
    using assms(3,4) by (rule split_loop_hit)
  finally show ?thesis .
qed

lemma split_name_ge:
  assumes ge: "''>='' \<in> set ops"
    and only: "\<forall>op\<in>set ops. py_in op ''name>=1.0'' \<longrightarrow> op = ''>='' \<or> op = ''>''"
  shows "split_module_spec ops ''name>=1.0'' = (''name'', Some ''>=1.0'')"
proof -
  define P where "P = (\<lambda>x. py_in x ''name>=1.0'')"
  have "P ''>=''" by (simp add: P_def)
  with ge have "\<exists>x\<in>set ops. P x" by blast
  then have "\<exists>ys x zs. ops = ys @ x # zs \<and> P x \<and> (\<forall>y\<in>set ys. \<not> P y)"
    by (rule split_list_first_prop)
  then obtain pre t post where ops: "ops = pre @ t # post"
    and t: "P t" and pre': "\<forall>p\<in>set pre. \<not> P p"
    by blast
  from pre' have pre: "\<forall>p\<in>set pre. \<not> py_in p ''name>=1.0''" by (simp add: P_def)
  from ops have "t \<in> set ops" by simp
  with t only have tt: "t = ''>='' \<or> t = ''>''" unfolding P_def by blast
  have at: "occurs_at t ''name>=1.0'' 4" using tt by (auto simp: occurs_at_def)
  have least: "\<forall>j<4. \<not> occurs_at t ''name>=1.0'' j"
  proof (intro allI impI)
    fix j :: nat assume "j < 4"
    then consider "j = 0" | "j = 1" | "j = 2" | "j = 3" by linarith
    then show "\<not> occurs_at t ''name>=1.0'' j"
      using tt by cases (auto simp: occurs_at_def)
  qed
  have "ops @ ['' '', ''@''] = pre @ t # (post @ ['' '', ''@''])" using ops by simp
  from split_module_spec_first [OF this pre at least]
  show ?thesis by (simp add: strip_def isspace_def)
qed

lemma split_no_token:
  "\<forall>t\<in>set (ops @ ['' '', ''@'']). \<not> py_in t spec \<Longrightarrow> split_module_spec ops spec = (spec, None)"
  unfolding split_module_spec_def by (rule split_loop_none)

lemma split_name_at:
  assumes "\<forall>op\<in>set ops. \<not> py_in op ''name@1.2.3''"
  shows "split_module_spec ops ''name@1.2.3'' = (''name'', Some ''@1.2.3'')"
proof -
  have pre: "\<forall>p\<in>set (ops @ ['' '']). \<not> py_in p ''name@1.2.3''" using assms by simp
  have at: "occurs_at ''@'' ''name@1.2.3'' 4" by (simp add: occurs_at_def)
  have least: "\<forall>j<4. \<not> occurs_at ''@'' ''name@1.2.3'' j"
  proof (intro allI impI)
    fix j :: nat assume "j < 4"
    then consider "j = 0" | "j = 1" | "j = 2" | "j = 3" by linarith
    then show "\<not> occurs_at ''@'' ''name@1.2.3'' j"
      by cases (auto simp: occurs_at_def)
  qed
  have "ops @ ['' '', ''@''] = (ops @ ['' '']) @ ''@'' # []" by simp
  from split_module_spec_first [OF this pre at least]
  show ?thesis by (simp add: strip_def isspace_def)
qed

lemma split_name_plain:
  assumes "\<forall>op\<in>set ops. \<not> py_in op ''name''"
  shows "split_module_spec ops ''name'' = (''name'', None)"
  using assms by (intro split_no_token) simp


text \<open>
  Claim C3, as the code has it. The split point is decided by rank, not by position: the
  candidates are tried in the order operators, space, \<open>@\<close>; the first candidate that
  occurs anywhere in the string is the splitter, and the string is cut at the leftmost
  occurrence of that one token. The stripped text before the cut is the name, the stripped
  text from the cut on is the constraint, and a string without any candidate comes back
  whole with no constraint. Where no operator occurs in \<open>name@1.2.3\<close> or in \<open>name\<close>,
  and \<open>>=\<close> is an operator while no operator but \<open>>=\<close> and \<open>>\<close> occurs in
  \<open>name>=1.0\<close>, the three strings split as the specification lists them.
\<close>

theorem split_module_spec_first_splitter:
  "((\<forall>t\<in>set (ops @ ['' '', ''@'']). \<not> py_in t spec0)
      \<longrightarrow> split_module_spec ops spec0 = (spec0, None))
   \<and> (ops @ ['' '', ''@''] = pre @ t # post \<and> (\<forall>p\<in>set pre. \<not> py_in p spec)
        \<and> occurs_at t spec i \<and> (\<forall>j<i. \<not> occurs_at t spec j)
      \<longrightarrow> split_module_spec ops spec = (strip (take i spec), Some (strip (drop i spec))))
   \<and> ((\<forall>op\<in>set ops. \<not> py_in op ''name@1.2.3'')
      \<longrightarrow> split_module_spec ops ''name@1.2.3'' = (''name'', Some ''@1.2.3''))
   \<and> (''>='' \<in> set ops \<and> (\<forall>op\<in>set ops. py_in op ''name>=1.0'' \<longrightarrow> op = ''>='' \<or> op = ''>'')
      \<longrightarrow> split_module_spec ops ''name>=1.0'' = (''name'', Some ''>=1.0''))
   \<and> ((\<forall>op\<in>set ops. \<not> py_in op ''name'')
      \<longrightarrow> split_module_spec ops ''name'' = (''name'', None))"
  using split_no_token [of ops spec0] split_module_spec_first [of ops pre t post spec i]
    split_name_at [of ops] split_name_ge [of ops] split_name_plain [of ops]
  by blast

theorem split_module_spec_first_splitter_witness:
  "split_module_spec example_operators ''name'' = (''name'', None)
   \<and> split_module_spec example_operators ''a b^1'' = (''a b'', Some ''^1'')
   \<and> split_module_spec example_operators ''name@1.2.3'' = (''name'', Some ''@1.2.3'')
   \<and> split_module_spec example_operators ''name>=1.0'' = (''name'', Some ''>=1.0'')"
proof -
  let ?post = "[''~'', ''!'', ''=='', ''>='', ''<='', ''>'', ''<'', '' '', ''@'']"
  have e: "example_operators @ ['' '', ''@''] = [''*''] @ ''^'' # ?post"
    by (simp add: example_operators_def)
  have p: "\<forall>p\<in>set [''*'']. \<not> py_in p ''a b^1''" by simp
  have a: "occurs_at ''^'' ''a b^1'' 3" by (simp add: occurs_at_def)
  have l: "\<forall>j<3. \<not> occurs_at ''^'' ''a b^1'' j"
  proof (intro allI impI)
    fix j :: nat assume "j < 3"
    then consider "j = 0" | "j = 1" | "j = 2" by linarith
    then show "\<not> occurs_at ''^'' ''a b^1'' j" by cases (simp_all add: occurs_at_def)
  qed
  have n: "\<forall>t\<in>set (example_operators @ ['' '', ''@'']). \<not> py_in t ''name''"
    by (simp add: example_operators_def)
  have n1: "\<forall>op\<in>set example_operators. \<not> py_in op ''name@1.2.3''"
    by (simp add: example_operators_def)
  have n2: "''>='' \<in> set example_operators"
    by (simp add: example_operators_def)
  have n3: "\<forall>op\<in>set example_operators. py_in op ''name>=1.0'' \<longrightarrow> op = ''>='' \<or> op = ''>''"
    by (simp add: example_operators_def)
  have n4: "\<forall>op\<in>set example_operators. \<not> py_in op ''name''"
    by (simp add: example_operators_def)
  note inst = split_module_spec_first_splitter
    [of example_operators "''name''" "[''*'']" "''^''" ?post "''a b^1''" 3]
  from inst n have r1: "split_module_spec example_operators ''name'' = (''name'', None)"
    by blast
  from inst e p a l have "split_module_spec example_operators ''a b^1''
      = (strip (take 3 ''a b^1''), Some (strip (drop 3 ''a b^1'')))"
    by blast
  moreover have "strip (take 3 ''a b^1'') = ''a b''" "strip (drop 3 ''a b^1'') = ''^1''"
    by (simp_all add: strip_def isspace_def)
  ultimately have r2: "split_module_spec example_operators ''a b^1'' = (''a b'', Some ''^1'')"
    by simp
  from inst n1 have r3:
    "split_module_spec example_operators ''name@1.2.3'' = (''name'', Some ''@1.2.3'')"
    by blast
  from inst n2 n3 have r4:
    "split_module_spec example_operators ''name>=1.0'' = (''name'', Some ''>=1.0'')"
    by blast
  from r1 r2 r3 r4 show ?thesis by blast
qed

text \<open>
  Claim C3 as stated fails: in \<open>a@b c\<close> the leftmost candidate is \<open>@\<close> at index 1, but
  the space is tried before \<open>@\<close> and the string is cut at index 3.
\<close>

theorem split_module_spec_leftmost_counterexample:
  "split_module_spec example_operators ''a@b c'' = (''a@b'', Some ''c'')
   \<and> split_leftmost example_operators ''a@b c'' = (''a'', Some ''@b c'')
   \<and> split_module_spec example_operators ''a@b c'' \<noteq> split_leftmost example_operators ''a@b c''"
  by (simp add: split_module_spec_def split_leftmost_def example_operators_def strip_def isspace_def)


section \<open>Properties of the manifest editor\<close>

lemma fold_upd_lookup:
  "fold (\<lambda>x d. d(f x \<mapsto> x)) xs m n =
     (case filter (\<lambda>x. f x = n) (rev xs) of [] \<Rightarrow> m n | x # _ \<Rightarrow> Some x)"
proof (induction xs rule: rev_induct)
  case Nil
  then show ?case by simp
next
  case (snoc a xs)
  then show ?case by simp
qed

lemma by_name_Some:
  assumes "dependencies_by_name ops deps n = Some e"
  shows "e \<in> set deps \<and> fst (split_module_spec ops e) = n"
proof -
  from assms obtain ys where "filter (\<lambda>x. fst (split_module_spec ops x) = n) (rev deps) = e # ys"
    by (auto simp: dependencies_by_name_def fold_upd_lookup split: list.splits)
  then have "e \<in> set (filter (\<lambda>x. fst (split_module_spec ops x) = n) (rev deps))" by simp
  then show ?thesis by simp
qed

lemma by_name_None:
  "dependencies_by_name ops deps n = None \<longleftrightarrow> n \<notin> set (names_of ops deps)"
proof -
  have "dependencies_by_name ops deps n = None
          \<longleftrightarrow> filter (\<lambda>x. fst (split_module_spec ops x) = n) (rev deps) = []"
    by (simp add: dependencies_by_name_def fold_upd_lookup split: list.splits)
  also have "\<dots> \<longleftrightarrow> n \<notin> set (names_of ops deps)"
    by (auto simp: names_of_def filter_empty_conv)
  finally show ?thesis .
qed

lemma distinct_map_unique:
  "distinct (map f xs) \<Longrightarrow> x \<in> set xs \<Longrightarrow> y \<in> set xs \<Longrightarrow> f x = f y \<Longrightarrow> x = y"
  by (meson distinct_map inj_onD)

lemma by_name_distinct:
  assumes "distinct (names_of ops deps)" and "e \<in> set deps"
  shows "dependencies_by_name ops deps (fst (split_module_spec ops e)) = Some e"
proof (cases "dependencies_by_name ops deps (fst (split_module_spec ops e))")
  case None
  with assms(2) show ?thesis by (auto simp: by_name_None names_of_def)
next
  case (Some e')
  then have "e' \<in> set deps" "fst (split_module_spec ops e') = fst (split_module_spec ops e)"
    by (auto dest: by_name_Some)
  with assms have "e' = e"
    unfolding names_of_def by (blast intro: distinct_map_unique)
  with Some show ?thesis by simp
qed

lemma remove1_name_gone:
  "distinct (map f xs) \<Longrightarrow> e \<in> set xs \<Longrightarrow> f e \<notin> f ` set (remove1 e xs)"
proof (induction xs)
  case Nil
  then show ?case by simp
next
  case (Cons a xs)
  show ?case
  proof (cases "a = e")
    case True
    with Cons.prems show ?thesis by simp
  next
    case False
    with Cons.prems have e: "e \<in> set xs" by simp
    with Cons have "f e \<notin> f ` set (remove1 e xs)" by simp
    moreover from Cons.prems have "f a \<notin> f ` set xs" by simp
    with e have "f e \<noteq> f a" by (metis imageI)
    ultimately show ?thesis using False by simp
  qed
qed

lemma distinct_map_remove1: "distinct (map f xs) \<Longrightarrow> distinct (map f (remove1 e xs))"
proof (induction xs)
  case Nil
  then show ?case by simp
next
  case (Cons a xs)
  have "set (remove1 e xs) \<subseteq> set xs" by (rule set_remove1_subset)
  with Cons show ?case by auto
qed

lemma remove_existing_total:
  "\<exists>deps1. remove_existing ops spec deps = Inr deps1"
  by (auto simp: remove_existing_def Let_def dest: by_name_Some split: option.splits)

lemma updated_dependencies_total:
  "\<exists>deps' wr. updated_dependencies ops spec deps = Inr (deps', wr)"
  using remove_existing_total [of ops spec deps]
  by (auto simp: updated_dependencies_def)

lemma updated_contains:
  "updated_dependencies ops spec deps = Inr (deps', wr) \<Longrightarrow> spec \<in> set deps'"
  by (auto simp: updated_dependencies_def split: sum.splits if_splits)

lemma remove_existing_keeps_spec:
  "remove_existing ops spec deps = Inr deps1 \<Longrightarrow> spec \<in> set deps1 \<longleftrightarrow> spec \<in> set deps"
  by (auto simp: remove_existing_def Let_def split: option.splits if_splits)

lemma updated_write_iff:
  "updated_dependencies ops spec deps = Inr (deps', wr) \<Longrightarrow> wr \<longleftrightarrow> spec \<notin> set deps"
  by (auto simp: updated_dependencies_def remove_existing_keeps_spec split: sum.splits if_splits)

lemma updated_write_changes:
  assumes "updated_dependencies ops spec deps = Inr (deps', True)"
  shows "deps' \<noteq> deps"
proof -
  from updated_write_iff [OF assms] have "spec \<notin> set deps" by simp
  moreover from assms have "spec \<in> set deps'" by (rule updated_contains)
  ultimately show ?thesis by auto
qed

lemma updated_distinct:
  assumes d: "distinct (names_of ops deps)"
    and u: "updated_dependencies ops spec deps = Inr (deps', wr)"
  shows "distinct (names_of ops deps') \<and> (wr \<longleftrightarrow> deps' \<noteq> deps)"
proof (cases "dependencies_by_name ops deps (fst (split_module_spec ops spec))")
  case None
  then have nin: "fst (split_module_spec ops spec) \<notin> set (names_of ops deps)"
    by (simp add: by_name_None)
  then have "spec \<notin> set deps" by (auto simp: names_of_def)
  with None u have "deps' = deps @ [spec]" "wr"
    by (auto simp: updated_dependencies_def remove_existing_def)
  with d nin show ?thesis by (simp add: names_of_def)
next
  case (Some e)
  then have e: "e \<in> set deps" "fst (split_module_spec ops e) = fst (split_module_spec ops spec)"
    by (auto dest: by_name_Some)
  show ?thesis
  proof (cases "e = spec")
    case True
    with Some e u have "deps' = deps" "\<not> wr"
      by (auto simp: updated_dependencies_def remove_existing_def)
    with d show ?thesis by simp
  next
    case False
    from d e(1) have gone: "fst (split_module_spec ops e)
        \<notin> (\<lambda>x. fst (split_module_spec ops x)) ` set (remove1 e deps)"
      unfolding names_of_def by (rule remove1_name_gone)
    then have nin: "spec \<notin> set (remove1 e deps)" using e(2) by force
    with Some False e u have eq: "deps' = remove1 e deps @ [spec]" and "wr"
      by (auto simp: updated_dependencies_def remove_existing_def)
    from d have "distinct (names_of ops (remove1 e deps))"
      unfolding names_of_def by (rule distinct_map_remove1)
    with gone e(2) eq have "distinct (names_of ops deps')"
      by (simp add: names_of_def)
    moreover from u \<open>wr\<close> have "updated_dependencies ops spec deps = Inr (deps', True)"
      by simp
    then have "deps' \<noteq> deps" by (rule updated_write_changes)
    ultimately show ?thesis using \<open>wr\<close> by simp
  qed
qed

lemma updated_replaces:
  assumes d: "distinct (names_of ops deps)"
    and e: "dependencies_by_name ops deps (fst (split_module_spec ops spec)) = Some e"
    and ne: "e \<noteq> spec"
  shows "updated_dependencies ops spec deps = Inr (remove1 e deps @ [spec], True)"
proof -
  from e have e': "e \<in> set deps" "fst (split_module_spec ops e) = fst (split_module_spec ops spec)"
    by (auto dest: by_name_Some)
  from d e'(1) have "fst (split_module_spec ops e)
        \<notin> (\<lambda>x. fst (split_module_spec ops x)) ` set (remove1 e deps)"
    unfolding names_of_def by (rule remove1_name_gone)
  then have "spec \<notin> set (remove1 e deps)" using e'(2) by force
  with e ne e' show ?thesis
    by (simp add: updated_dependencies_def remove_existing_def)
qed


lemma listed_Some:
  "ato_yaml fs = Some data \<Longrightarrow>
     listed fs = (case dependencies data of None \<Rightarrow> [] | Some ds \<Rightarrow> ds)"
  by (simp add: listed_def)

lemma set_dependency_missing:
  "ato_yaml fs = None \<Longrightarrow>
     set_dependency_to_ato_yaml ops root spec fs
       = (Inl (AtoError (''ato.yaml not found in '' @ root)), fs)"
  by (simp add: set_dependency_to_ato_yaml_def)

lemma set_dependency_write:
  assumes "ato_yaml fs = Some data"
    and "updated_dependencies ops spec (listed fs) = Inr (deps', True)"
  shows "set_dependency_to_ato_yaml ops root spec fs
     = (Inr (), fs\<lparr>ato_yaml := Some (data\<lparr>dependencies := Some deps'\<rparr>),
                   yaml_writes := Suc (yaml_writes fs)\<rparr>)"
  using assms by (simp add: set_dependency_to_ato_yaml_def listed_Some)

lemma set_dependency_no_write:
  assumes "ato_yaml fs = Some data"
    and "updated_dependencies ops spec (listed fs) = Inr (deps', False)"
  shows "set_dependency_to_ato_yaml ops root spec fs = (Inr (), fs)"
  using assms by (simp add: set_dependency_to_ato_yaml_def listed_Some)

lemma set_dependency_listed:
  assumes "ato_yaml fs \<noteq> None"
    and "updated_dependencies ops spec (listed fs) = Inr (deps', wr)"
  shows "listed (snd (set_dependency_to_ato_yaml ops root spec fs))
           = (if wr then deps' else listed fs)"
    and "ato_yaml (snd (set_dependency_to_ato_yaml ops root spec fs)) \<noteq> None"
    and "yaml_writes (snd (set_dependency_to_ato_yaml ops root spec fs))
           = (if wr then Suc (yaml_writes fs) else yaml_writes fs)"
    and "fst (set_dependency_to_ato_yaml ops root spec fs) = Inr ()"
proof -
  from assms(1) obtain data where data: "ato_yaml fs = Some data" by auto
  show "listed (snd (set_dependency_to_ato_yaml ops root spec fs))
           = (if wr then deps' else listed fs)"
    using assms(2) set_dependency_write [OF data, of ops spec deps' root]
      set_dependency_no_write [OF data, of ops spec deps' root]
    by (cases wr) (simp_all add: listed_def)
  show "ato_yaml (snd (set_dependency_to_ato_yaml ops root spec fs)) \<noteq> None"
    using assms(2) data set_dependency_write [OF data, of ops spec deps' root]
      set_dependency_no_write [OF data, of ops spec deps' root]
    by (cases wr) simp_all
  show "yaml_writes (snd (set_dependency_to_ato_yaml ops root spec fs))
           = (if wr then Suc (yaml_writes fs) else yaml_writes fs)"
    using assms(2) set_dependency_write [OF data, of ops spec deps' root]
      set_dependency_no_write [OF data, of ops spec deps' root]
    by (cases wr) simp_all
  show "fst (set_dependency_to_ato_yaml ops root spec fs) = Inr ()"
    using assms(2) set_dependency_write [OF data, of ops spec deps' root]
      set_dependency_no_write [OF data, of ops spec deps' root]
    by (cases wr) simp_all
qed

lemma set_dependency_contains:
  assumes "ato_yaml fs \<noteq> None"
  shows "spec \<in> set (listed (snd (set_dependency_to_ato_yaml ops root spec fs)))"
proof -
  obtain deps' wr where u: "updated_dependencies ops spec (listed fs) = Inr (deps', wr)"
    using updated_dependencies_total by blast
  have "spec \<in> set deps'" using u by (rule updated_contains)
  moreover have "\<not> wr \<Longrightarrow> spec \<in> set (listed fs)"
    using updated_write_iff [OF u] by simp
  ultimately show ?thesis
    using set_dependency_listed(1) [OF assms u, of root] by (cases wr) simp_all
qed

lemma set_dependency_distinct:
  assumes d: "distinct (names_of ops (listed fs))"
  shows "distinct (names_of ops (listed (snd (set_dependency_to_ato_yaml ops root spec fs))))"
proof (cases "ato_yaml fs")
  case None
  with d show ?thesis by (simp add: set_dependency_missing)
next
  case (Some data)
  then have ex: "ato_yaml fs \<noteq> None" by simp
  obtain deps' wr where u: "updated_dependencies ops spec (listed fs) = Inr (deps', wr)"
    using updated_dependencies_total by blast
  from updated_distinct [OF d u] have "distinct (names_of ops deps')" by simp
  with d show ?thesis
    using set_dependency_listed(1) [OF ex u, of root] by (cases wr) simp_all
qed

lemma filter_same_name:
  "distinct (map f xs) \<Longrightarrow> x \<in> set xs \<Longrightarrow> filter (\<lambda>y. f y = f x) xs = [x]"
proof (induction xs)
  case Nil
  then show ?case by simp
next
  case (Cons a xs)
  show ?case
  proof (cases "a = x")
    case True
    from Cons.prems have "\<forall>y\<in>set xs. f y \<noteq> f a" by (metis distinct.simps(2) imageI list.simps(9) list.set_map)
    then have "filter (\<lambda>y. f y = f a) xs = []" by (simp add: filter_empty_conv)
    with True show ?thesis by simp
  next
    case False
    with Cons.prems have x: "x \<in> set xs" by simp
    from Cons.prems have "f a \<notin> f ` set xs" by simp
    with x have "f a \<noteq> f x" by (metis imageI)
    with Cons x show ?thesis by simp
  qed
qed

lemma set_dependency_single_entry:
  assumes ex: "ato_yaml fs \<noteq> None" and d: "distinct (names_of ops (listed fs))"
  shows "filter (\<lambda>x. fst (split_module_spec ops x) = fst (split_module_spec ops spec))
           (listed (snd (set_dependency_to_ato_yaml ops root spec fs))) = [spec]"
proof -
  have "distinct (map (\<lambda>x. fst (split_module_spec ops x))
          (listed (snd (set_dependency_to_ato_yaml ops root spec fs))))"
    using set_dependency_distinct [OF d, of root spec] by (simp add: names_of_def)
  moreover have "spec \<in> set (listed (snd (set_dependency_to_ato_yaml ops root spec fs)))"
    using ex by (rule set_dependency_contains)
  ultimately show ?thesis by (rule filter_same_name)
qed

lemma set_dependency_replaces:
  assumes ex: "ato_yaml fs \<noteq> None" and d: "distinct (names_of ops (listed fs))"
    and e: "e \<in> set (listed fs)"
    and n: "fst (split_module_spec ops e) = fst (split_module_spec ops spec)"
    and ne: "e \<noteq> spec"
  shows "listed (snd (set_dependency_to_ato_yaml ops root spec fs))
           = remove1 e (listed fs) @ [spec]"
proof -
  from d e have "dependencies_by_name ops (listed fs) (fst (split_module_spec ops e)) = Some e"
    by (rule by_name_distinct)
  with n have "dependencies_by_name ops (listed fs) (fst (split_module_spec ops spec)) = Some e"
    by simp
  with d have "updated_dependencies ops spec (listed fs)
      = Inr (remove1 e (listed fs) @ [spec], True)"
    using ne by (rule updated_replaces)
  from set_dependency_listed(1) [OF ex this, of root] show ?thesis by simp
qed

lemma set_dependency_present:
  assumes "spec \<in> set (listed fs)"
  shows "set_dependency_to_ato_yaml ops root spec fs = (Inr (), fs)"
proof -
  from assms have "ato_yaml fs \<noteq> None" by (cases "ato_yaml fs") (simp_all add: listed_def)
  then obtain data where data: "ato_yaml fs = Some data" by auto
  obtain deps' wr where u: "updated_dependencies ops spec (listed fs) = Inr (deps', wr)"
    using updated_dependencies_total by blast
  from updated_write_iff [OF u] assms have "\<not> wr" by simp
  with u have "updated_dependencies ops spec (listed fs) = Inr (deps', False)" by simp
  with data show ?thesis by (rule set_dependency_no_write)
qed

lemma set_dependency_idem:
  "snd (set_dependency_to_ato_yaml ops root spec (snd (set_dependency_to_ato_yaml ops root spec fs)))
     = snd (set_dependency_to_ato_yaml ops root spec fs)"
proof (cases "ato_yaml fs")
  case None
  then show ?thesis by (simp add: set_dependency_missing)
next
  case (Some data)
  then have "spec \<in> set (listed (snd (set_dependency_to_ato_yaml ops root spec fs)))"
    by (intro set_dependency_contains) simp
  then show ?thesis by (simp add: set_dependency_present)
qed

lemma set_dependency_writes:
  assumes "ato_yaml fs \<noteq> None"
  shows "yaml_writes (snd (set_dependency_to_ato_yaml ops root spec fs))
           = (if spec \<in> set (listed fs) then yaml_writes fs else Suc (yaml_writes fs))"
proof -
  obtain deps' wr where u: "updated_dependencies ops spec (listed fs) = Inr (deps', wr)"
    using updated_dependencies_total by blast
  from updated_write_iff [OF u] set_dependency_listed(3) [OF assms u, of root]
  show ?thesis by simp
qed

text \<open>
  Claim C7. \<open>set_dependency_to_ato_yaml\<close> keeps the dependency list of the manifest at one
  entry per package name at most. On such a manifest, a spec whose name is already listed
  under a different spec takes the old entry out and goes to the end of the list. So adding
  \<open>pkg^1.0.0\<close> and then \<open>pkg^2.0.0\<close>, both of which name \<open>pkg\<close>, leaves
  \<open>pkg^2.0.0\<close> as the one entry of that name.
\<close>

theorem set_dependency_one_entry_per_name:
  "(distinct (names_of ops (listed fs))
      \<longrightarrow> distinct (names_of ops (listed (snd (set_dependency_to_ato_yaml ops root spec fs)))))
   \<and> (ato_yaml fs \<noteq> None \<and> distinct (names_of ops (listed fs)) \<and> e \<in> set (listed fs)
        \<and> fst (split_module_spec ops e) = fst (split_module_spec ops spec) \<and> e \<noteq> spec
      \<longrightarrow> listed (snd (set_dependency_to_ato_yaml ops root spec fs))
            = remove1 e (listed fs) @ [spec])
   \<and> (ato_yaml fs \<noteq> None \<and> distinct (names_of ops (listed fs))
        \<and> fst (split_module_spec ops ''pkg^1.0.0'') = ''pkg''
        \<and> fst (split_module_spec ops ''pkg^2.0.0'') = ''pkg''
      \<longrightarrow> filter (\<lambda>x. fst (split_module_spec ops x) = ''pkg'')
            (listed (snd (set_dependency_to_ato_yaml ops root ''pkg^2.0.0''
               (snd (set_dependency_to_ato_yaml ops root ''pkg^1.0.0'' fs)))))
          = [''pkg^2.0.0''])"
proof (intro conjI impI)
  assume "distinct (names_of ops (listed fs))"
  then show "distinct (names_of ops (listed (snd (set_dependency_to_ato_yaml ops root spec fs))))"
    by (rule set_dependency_distinct)
next
  assume "ato_yaml fs \<noteq> None \<and> distinct (names_of ops (listed fs)) \<and> e \<in> set (listed fs)
        \<and> fst (split_module_spec ops e) = fst (split_module_spec ops spec) \<and> e \<noteq> spec"
  then show "listed (snd (set_dependency_to_ato_yaml ops root spec fs))
            = remove1 e (listed fs) @ [spec]"
    by (intro set_dependency_replaces) simp_all
next
  let ?fs1 = "snd (set_dependency_to_ato_yaml ops root ''pkg^1.0.0'' fs)"
  assume a: "ato_yaml fs \<noteq> None \<and> distinct (names_of ops (listed fs))
        \<and> fst (split_module_spec ops ''pkg^1.0.0'') = ''pkg''
        \<and> fst (split_module_spec ops ''pkg^2.0.0'') = ''pkg''"
  obtain deps' wr where u: "updated_dependencies ops ''pkg^1.0.0'' (listed fs) = Inr (deps', wr)"
    using updated_dependencies_total by blast
  from a have ex: "ato_yaml fs \<noteq> None" by simp
  have ex1: "ato_yaml ?fs1 \<noteq> None" using ex u by (rule set_dependency_listed(2))
  from a have d1: "distinct (names_of ops (listed ?fs1))"
    by (intro set_dependency_distinct) simp
  from set_dependency_single_entry [OF ex1 d1, where spec = "''pkg^2.0.0''" and root = root] a
  show "filter (\<lambda>x. fst (split_module_spec ops x) = ''pkg'')
            (listed (snd (set_dependency_to_ato_yaml ops root ''pkg^2.0.0'' ?fs1)))
          = [''pkg^2.0.0'']"
    by simp
qed

lemma split_pkg:
  "split_module_spec example_operators ''pkg^1.0.0'' = (''pkg'', Some ''^1.0.0'')"
  "split_module_spec example_operators ''pkg^2.0.0'' = (''pkg'', Some ''^2.0.0'')"
  "split_module_spec example_operators ''other>=1.0'' = (''other'', Some ''>=1.0'')"
  by (simp_all add: split_module_spec_def example_operators_def strip_def isspace_def)

theorem set_dependency_one_entry_per_name_witness:
  "distinct (names_of example_operators
      (listed (snd (set_dependency_to_ato_yaml example_operators ''/proj'' ''pkg^2.0.0''
                      example_files))))
   \<and> listed (snd (set_dependency_to_ato_yaml example_operators ''/proj'' ''pkg^2.0.0''
                      example_files)) = [''other>=1.0'', ''pkg^2.0.0'']
   \<and> filter (\<lambda>x. fst (split_module_spec example_operators x) = ''pkg'')
        (listed (snd (set_dependency_to_ato_yaml example_operators ''/proj'' ''pkg^2.0.0''
           (snd (set_dependency_to_ato_yaml example_operators ''/proj'' ''pkg^1.0.0''
                   example_files)))))
      = [''pkg^2.0.0'']"
proof -
  have l: "listed example_files = [''other>=1.0'', ''pkg^1.0.0'']"
    by (simp add: listed_def example_files_def)
  have ex: "ato_yaml example_files \<noteq> None" by (simp add: example_files_def)
  have d: "distinct (names_of example_operators (listed example_files))"
    by (simp add: l names_of_def split_pkg)
  have e: "''pkg^1.0.0'' \<in> set (listed example_files)" by (simp add: l)
  have n: "fst (split_module_spec example_operators ''pkg^1.0.0'')
             = fst (split_module_spec example_operators ''pkg^2.0.0'')"
    by (simp add: split_pkg)
  have ne: "''pkg^1.0.0'' \<noteq> ''pkg^2.0.0''" by simp
  have p: "fst (split_module_spec example_operators ''pkg^1.0.0'') = ''pkg''"
    "fst (split_module_spec example_operators ''pkg^2.0.0'') = ''pkg''"
    by (simp_all add: split_pkg)
  note inst = set_dependency_one_entry_per_name
    [of example_operators example_files "''/proj''" "''pkg^2.0.0''" "''pkg^1.0.0''"]
  from inst d have r1: "distinct (names_of example_operators
      (listed (snd (set_dependency_to_ato_yaml example_operators ''/proj'' ''pkg^2.0.0''
                      example_files))))"
    by blast
  from inst ex d e n ne have "listed (snd (set_dependency_to_ato_yaml example_operators
      ''/proj'' ''pkg^2.0.0'' example_files))
        = remove1 ''pkg^1.0.0'' (listed example_files) @ [''pkg^2.0.0'']"
    by blast
  then have r2: "listed (snd (set_dependency_to_ato_yaml example_operators
      ''/proj'' ''pkg^2.0.0'' example_files)) = [''other>=1.0'', ''pkg^2.0.0'']"
    by (simp add: l)
  from inst ex d p have r3: "filter (\<lambda>x. fst (split_module_spec example_operators x) = ''pkg'')
        (listed (snd (set_dependency_to_ato_yaml example_operators ''/proj'' ''pkg^2.0.0''
           (snd (set_dependency_to_ato_yaml example_operators ''/proj'' ''pkg^1.0.0''
                   example_files)))))
      = [''pkg^2.0.0'']"
    by blast
  from r1 r2 r3 show ?thesis by blast
qed

lemma set_dependency_written_iff:
  "yaml_writes (snd (set_dependency_to_ato_yaml ops root spec fs)) = Suc (yaml_writes fs)
     \<longleftrightarrow> listed (snd (set_dependency_to_ato_yaml ops root spec fs)) \<noteq> listed fs"
proof (cases "ato_yaml fs")
  case None
  then show ?thesis by (simp add: set_dependency_missing)
next
  case (Some data)
  then have ex: "ato_yaml fs \<noteq> None" by simp
  obtain deps' wr where u: "updated_dependencies ops spec (listed fs) = Inr (deps', wr)"
    using updated_dependencies_total by blast
  show ?thesis
  proof (cases wr)
    case True
    with u have "deps' \<noteq> listed fs" by (intro updated_write_changes) simp
    with True set_dependency_listed(1,3) [OF ex u, of root] show ?thesis by simp
  next
    case False
    with set_dependency_listed(1,3) [OF ex u, of root] show ?thesis by simp
  qed
qed

lemma set_dependency_unwritten:
  assumes "yaml_writes (snd (set_dependency_to_ato_yaml ops root spec fs)) \<noteq> Suc (yaml_writes fs)"
  shows "snd (set_dependency_to_ato_yaml ops root spec fs) = fs"
proof (cases "ato_yaml fs")
  case None
  then show ?thesis by (simp add: set_dependency_missing)
next
  case (Some data)
  then have ex: "ato_yaml fs \<noteq> None" by simp
  obtain deps' wr where u: "updated_dependencies ops spec (listed fs) = Inr (deps', wr)"
    using updated_dependencies_total by blast
  from assms set_dependency_listed(3) [OF ex u, of root] have "\<not> wr" by auto
  with u have "updated_dependencies ops spec (listed fs) = Inr (deps', False)" by simp
  with Some have "set_dependency_to_ato_yaml ops root spec fs = (Inr (), fs)"
    by (rule set_dependency_no_write)
  then show ?thesis by simp
qed

text \<open>
  Claim C8. Adding a spec that the dependency list already holds verbatim returns without a
  write and leaves the files as they were, and adding the same spec twice is the same as
  adding it once. For every manifest, the file is rewritten exactly when the dependency list
  of the manifest changes; a call that does not write leaves the files untouched. Where the
  manifest exists, that is exactly when the spec was not yet in the list verbatim.
\<close>

theorem set_dependency_writes_iff_changed:
  "(spec \<in> set (listed fs) \<longrightarrow> set_dependency_to_ato_yaml ops root spec fs = (Inr (), fs))
   \<and> snd (set_dependency_to_ato_yaml ops root spec
            (snd (set_dependency_to_ato_yaml ops root spec fs)))
       = snd (set_dependency_to_ato_yaml ops root spec fs)
   \<and> ((yaml_writes (snd (set_dependency_to_ato_yaml ops root spec fs)) = Suc (yaml_writes fs))
        = (listed (snd (set_dependency_to_ato_yaml ops root spec fs)) \<noteq> listed fs))
   \<and> (yaml_writes (snd (set_dependency_to_ato_yaml ops root spec fs)) \<noteq> Suc (yaml_writes fs)
      \<longrightarrow> snd (set_dependency_to_ato_yaml ops root spec fs) = fs)
   \<and> (ato_yaml fs \<noteq> None
      \<longrightarrow> yaml_writes (snd (set_dependency_to_ato_yaml ops root spec fs))
            = (if spec \<in> set (listed fs) then yaml_writes fs else Suc (yaml_writes fs)))"
proof (intro conjI impI)
  assume "spec \<in> set (listed fs)"
  then show "set_dependency_to_ato_yaml ops root spec fs = (Inr (), fs)"
    by (rule set_dependency_present)
next
  show "snd (set_dependency_to_ato_yaml ops root spec
            (snd (set_dependency_to_ato_yaml ops root spec fs)))
       = snd (set_dependency_to_ato_yaml ops root spec fs)"
    by (rule set_dependency_idem)
next
  show "(yaml_writes (snd (set_dependency_to_ato_yaml ops root spec fs)) = Suc (yaml_writes fs))
        = (listed (snd (set_dependency_to_ato_yaml ops root spec fs)) \<noteq> listed fs)"
    by (rule set_dependency_written_iff)
next
  assume "yaml_writes (snd (set_dependency_to_ato_yaml ops root spec fs)) \<noteq> Suc (yaml_writes fs)"
  then show "snd (set_dependency_to_ato_yaml ops root spec fs) = fs"
    by (rule set_dependency_unwritten)
next
  assume "ato_yaml fs \<noteq> None"
  then show "yaml_writes (snd (set_dependency_to_ato_yaml ops root spec fs))
            = (if spec \<in> set (listed fs) then yaml_writes fs else Suc (yaml_writes fs))"
    by (rule set_dependency_writes)
qed

theorem set_dependency_writes_iff_changed_witness:
  "set_dependency_to_ato_yaml example_operators ''/proj'' ''pkg^1.0.0'' example_files
     = (Inr (), example_files)
   \<and> set_dependency_to_ato_yaml example_operators ''/proj'' ''pkg^1.0.0'' duplicate_files
     = (Inr (), duplicate_files)
   \<and> yaml_writes (snd (set_dependency_to_ato_yaml example_operators ''/proj'' ''pkg^2.0.0''
                         example_files)) = 1
   \<and> listed (snd (set_dependency_to_ato_yaml example_operators ''/proj'' ''pkg^2.0.0''
                         example_files)) \<noteq> listed example_files"
proof -
  have l: "listed example_files = [''other>=1.0'', ''pkg^1.0.0'']"
    by (simp add: listed_def example_files_def)
  have ld: "listed duplicate_files = [''pkg^1.0.0'', ''pkg^2.0.0'']"
    by (simp add: listed_def duplicate_files_def)
  have ex: "ato_yaml example_files \<noteq> None" by (simp add: example_files_def)
  have w0: "yaml_writes example_files = 0" by (simp add: example_files_def)
  have e: "''pkg^1.0.0'' \<in> set (listed example_files)" by (simp add: l)
  have ed: "''pkg^1.0.0'' \<in> set (listed duplicate_files)" by (simp add: ld)
  have a: "''pkg^2.0.0'' \<notin> set (listed example_files)" by (simp add: l)
  note present = set_dependency_writes_iff_changed
    [of "''pkg^1.0.0''" example_files example_operators "''/proj''"]
  note twice = set_dependency_writes_iff_changed
    [of "''pkg^1.0.0''" duplicate_files example_operators "''/proj''"]
  note absent = set_dependency_writes_iff_changed
    [of "''pkg^2.0.0''" example_files example_operators "''/proj''"]
  from present e have r1:
    "set_dependency_to_ato_yaml example_operators ''/proj'' ''pkg^1.0.0'' example_files
       = (Inr (), example_files)"
    by blast
  from twice ed have r2:
    "set_dependency_to_ato_yaml example_operators ''/proj'' ''pkg^1.0.0'' duplicate_files
       = (Inr (), duplicate_files)"
    by blast
  from absent ex a have w:
    "yaml_writes (snd (set_dependency_to_ato_yaml example_operators ''/proj'' ''pkg^2.0.0''
                         example_files)) = Suc (yaml_writes example_files)"
    by simp
  with w0 have r3:
    "yaml_writes (snd (set_dependency_to_ato_yaml example_operators ''/proj'' ''pkg^2.0.0''
                         example_files)) = 1"
    by simp
  from absent w have r4:
    "listed (snd (set_dependency_to_ato_yaml example_operators ''/proj'' ''pkg^2.0.0''
                         example_files)) \<noteq> listed example_files"
    by blast
  from r1 r2 r3 r4 show ?thesis by blast
qed


section \<open>Properties of the installer\<close>

lemma py_max_fold:
  "fold (\<lambda>y m. if m < y then y else m) xs (x::'a::linorder) \<in> set (x # xs)
   \<and> (\<forall>y\<in>set (x # xs). y \<le> fold (\<lambda>y m. if m < y then y else m) xs x)"
proof (induction xs arbitrary: x)
  case Nil
  then show ?case by simp
next
  case (Cons a xs)
  show ?case
  proof (cases "x < a")
    case True
    with Cons.IH [of a] show ?thesis by (auto intro: less_imp_le order_trans)
  next
    case False
    with Cons.IH [of x] show ?thesis by (auto simp: not_less intro: order_trans)
  qed
qed

lemma py_max_greatest:
  assumes "xs \<noteq> []"
  shows "\<exists>m::'a::linorder. py_max xs = Inr m \<and> m \<in> set xs \<and> (\<forall>y\<in>set xs. y \<le> m)"
proof -
  from assms obtain x ys where xs: "xs = x # ys" by (cases xs) auto
  from py_max_fold [of ys x] show ?thesis unfolding xs by simp
qed

lemma semver_to_tag_snoc:
  "semver_to_tag prs (tags @ [t]) =
     (case prs t of None \<Rightarrow> semver_to_tag prs tags
      | Some v \<Rightarrow> AList.update v t (semver_to_tag prs tags))"
  by (cases "prs t") (simp_all add: semver_to_tag_def)

lemma semver_to_tag_keys:
  "fst ` set (semver_to_tag prs tags) = {v. \<exists>t\<in>set tags. prs t = Some v}"
proof (induction tags rule: rev_induct)
  case Nil
  then show ?case by (simp add: semver_to_tag_def)
next
  case (snoc t tags)
  show ?case
  proof (cases "prs t")
    case None
    with snoc show ?thesis by (auto simp: semver_to_tag_snoc)
  next
    case (Some v)
    with snoc show ?thesis by (auto simp: semver_to_tag_snoc AList.dom_update)
  qed
qed

lemma semver_to_tag_lookup:
  "map_of (semver_to_tag prs tags) v = Some tag \<Longrightarrow> tag \<in> set tags \<and> prs tag = Some v"
proof (induction tags rule: rev_induct)
  case Nil
  then show ?case by (simp add: semver_to_tag_def)
next
  case (snoc t tags)
  show ?case
  proof (cases "prs t")
    case None
    with snoc show ?thesis by (simp add: semver_to_tag_snoc)
  next
    case (Some v')
    with snoc show ?thesis
      by (cases "v = v'") (simp_all add: semver_to_tag_snoc AList.update_conv')
  qed
qed

lemma semver_to_tag_empty:
  "semver_to_tag prs tags = [] \<longleftrightarrow> (\<forall>t\<in>set tags. prs t = None)"
proof -
  have "semver_to_tag prs tags = [] \<longleftrightarrow> fst ` set (semver_to_tag prs tags) = {}" by simp
  also have "\<dots> \<longleftrightarrow> (\<forall>t\<in>set tags. prs t = None)"
  proof
    assume e: "fst ` set (semver_to_tag prs tags) = {}"
    show "\<forall>t\<in>set tags. prs t = None"
    proof
      fix t assume t: "t \<in> set tags"
      show "prs t = None"
      proof (cases "prs t")
        case (Some v)
        with t have "v \<in> {v. \<exists>t\<in>set tags. prs t = Some v}" by blast
        with e show ?thesis by (simp add: semver_to_tag_keys)
      qed simp
    qed
  next
    assume "\<forall>t\<in>set tags. prs t = None"
    then show "fst ` set (semver_to_tag prs tags) = {}"
      by (simp add: semver_to_tag_keys)
  qed
  finally show ?thesis .
qed

lemma select_at:
  "py_in ''@'' spec \<Longrightarrow>
     select_checkout ver spec tags w = (Inr (Some (strip_chars (strip spec) ''@''), None), w)"
  by (simp add: select_checkout_def)

lemma select_no_tags:
  "\<not> py_in ''@'' spec \<Longrightarrow> \<forall>t\<in>set tags. parse ver t = None \<Longrightarrow>
     select_checkout ver spec tags w =
       (Inr (None, None),
        log_to WARNING
          ''No semver tags found for this module. Using latest default branch :hot_pepper:.'' w)"
  by (simp add: select_checkout_def semver_to_tag_empty)

lemma select_no_match:
  assumes "\<not> py_in ''@'' spec" and "\<exists>t\<in>set tags. parse ver t \<noteq> None"
    and "\<forall>t\<in>set tags. \<forall>v. parse ver t = Some v \<longrightarrow> \<not> match ver spec v"
  shows "select_checkout ver spec tags w = (Inl ValueError, w)"
proof -
  have ne: "semver_to_tag (parse ver) tags \<noteq> []"
    using assms(2) by (simp add: semver_to_tag_empty)
  have "\<forall>v\<in>set (map fst (semver_to_tag (parse ver) tags)). \<not> match ver spec v"
    using assms(3) semver_to_tag_keys [of "parse ver" tags] by auto
  then have "filter (match ver spec) (map fst (semver_to_tag (parse ver) tags)) = []"
    by (simp add: filter_empty_conv)
  with ne assms(1) show ?thesis by (simp add: select_checkout_def)
qed

lemma select_max:
  assumes at: "\<not> py_in ''@'' spec"
    and some: "\<exists>t\<in>set tags. \<exists>v. parse ver t = Some v \<and> match ver spec v"
  shows "\<exists>tag v. select_checkout ver spec tags w = (Inr (Some tag, Some v), w)
           \<and> tag \<in> set tags \<and> parse ver tag = Some v \<and> match ver spec v
           \<and> (\<forall>t\<in>set tags. \<forall>v'. parse ver t = Some v' \<and> match ver spec v' \<longrightarrow> v' \<le> v)"
proof -
  let ?d = "semver_to_tag (parse ver) tags"
  let ?valid = "filter (match ver spec) (map fst ?d)"
  have keys: "set (map fst ?d) = {v. \<exists>t\<in>set tags. parse ver t = Some v}"
    using semver_to_tag_keys [of "parse ver" tags] by simp
  from some have ne: "?d \<noteq> []" by (auto simp: semver_to_tag_empty)
  from some keys have "?valid \<noteq> []" by (auto simp: filter_empty_conv)
  then obtain v where v: "py_max ?valid = Inr v" "v \<in> set ?valid" "\<forall>y\<in>set ?valid. y \<le> v"
    using py_max_greatest by blast
  from v(2) have m: "match ver spec v" and k: "v \<in> fst ` set ?d" by auto
  from k obtain tag where tag: "map_of ?d v = Some tag"
    by (metis map_of_eq_None_iff not_Some_eq)
  then have t: "tag \<in> set tags" "parse ver tag = Some v"
    by (auto dest: semver_to_tag_lookup)
  have gr: "\<forall>t\<in>set tags. \<forall>v'. parse ver t = Some v' \<and> match ver spec v' \<longrightarrow> v' \<le> v"
  proof (intro ballI allI impI)
    fix t v' assume "t \<in> set tags" "parse ver t = Some v' \<and> match ver spec v'"
    with keys have "v' \<in> set ?valid" by auto
    with v(3) show "v' \<le> v" by blast
  qed
  have "select_checkout ver spec tags w = (Inr (Some tag, Some v), w)"
    using at ne v(1) tag by (simp add: select_checkout_def)
  with t m gr show ?thesis by blast
qed


lemma select_frame:
  assumes "select_checkout ver spec tags w = (r, w2)"
  shows "modules w2 = modules w \<and> git_calls w2 = git_calls w \<and> config_ok w2 = config_ok w"
  using assms
  by (auto simp: select_checkout_def Let_def log_to_def split: if_splits sum.splits option.splits)

lemma module_dir_Some:
  "module_dir w n = Some r \<Longrightarrow> modules w = Some (module_dir w)"
  by (cases "modules w") (simp_all add: module_dir_def)

lemma open_repo_no_upgrade:
  assumes "config_ok w" and "module_dir w n = Some r"
  shows "open_repo g n False w =
     (Inr None, log_to INFO (n @ '' already exists. If you wish to upgrade, use --upgrade'') w)"
proof -
  from assms(2) have "modules w = Some (module_dir w)" by (rule module_dir_Some)
  then have "w\<lparr>modules := Some (module_dir w)\<rparr> = w" by simp
  with assms show ?thesis by (simp add: open_repo_def)
qed

lemma open_repo_Some:
  assumes "open_repo g n upgrade w = (Inr (Some repo), w1)"
  shows "module_dir w1 n = Some repo"
    and "\<forall>m t. Checkout m t \<in> set (git_calls w1) \<longrightarrow> Checkout m t \<in> set (git_calls w)"
  using assms
  by (auto simp: open_repo_def Let_def store_repo_def call_git_def log_to_def module_dir_def
      split: if_splits option.splits)

lemma open_repo_Some_iff:
  "(\<exists>w1. open_repo g n upgrade w = (Inr (Some repo), w1))
     \<longleftrightarrow> config_ok w
         \<and> ((module_dir w n = None
               \<and> clone_from g (''https://gitlab.atopile.io/packages/'' @ n) = Some repo)
            \<or> (upgrade \<and> (\<exists>r0. module_dir w n = Some r0 \<and> fetch g r0 = Some repo)))"
  by (auto simp: open_repo_def Let_def split: if_splits option.splits)

lemma checkout_best_dirty:
  "is_dirty g repo \<Longrightarrow>
     checkout_best g n repo bc sv w =
       (Inl (AtoError (''Module '' @ n @ '' has uncommitted changes. Aborting.'')), w)"
  by (simp add: checkout_best_def)

lemma checkout_best_unbound:
  "\<not> is_dirty g repo \<Longrightarrow> checkout_best g n repo None sv w = (Inl UnboundLocalError, w)"
  by (simp add: checkout_best_def)

lemma checkout_best_done:
  assumes "\<not> is_dirty g repo" and "checkout g repo target = Some repo'"
  shows "fst (checkout_best g n repo (Some target) sv w)
           = Inr (case sv of Some v \<Rightarrow> PyTagRef target | None \<Rightarrow> PyNone)"
    and "git_calls (snd (checkout_best g n repo (Some target) sv w))
           = git_calls w @ [Checkout n target]"
    and "module_dir (snd (checkout_best g n repo (Some target) sv w)) n = Some repo'"
  using assms
  by (auto simp: checkout_best_def Let_def store_repo_def call_git_def log_to_def module_dir_def
      split: option.splits)

lemma checkout_best_no_version:
  "fst (checkout_best g n repo bc sv w) \<noteq> Inr (PyVersion v)"
  by (auto simp: checkout_best_def Let_def split: option.splits)

lemma install_after_open:
  assumes "open_repo g (fst (split_module_spec (OPERATORS ver) module)) upgrade w
             = (Inr (Some repo), w1)"
  shows "install_dependency g ver module upgrade w =
     (case select_checkout ver (default_spec (snd (split_module_spec (OPERATORS ver) module)))
             (tag_names g repo) w1 of
        (Inl e, w2) \<Rightarrow> (Inl e, w2)
      | (Inr (best_checkout, installed_semver), w2) \<Rightarrow>
          checkout_best g (fst (split_module_spec (OPERATORS ver) module)) repo
            best_checkout installed_semver w2)"
  using assms by (simp add: install_dependency_def Let_def)

lemma install_no_version:
  "fst (install_dependency g ver module upgrade w) \<noteq> Inr (PyVersion v)"
  by (auto simp: install_dependency_def Let_def checkout_best_no_version
      split: prod.splits sum.splits option.splits)


text \<open>
  Claim C1, on the code. Once \<open>install_dependency\<close> holds a repository (a fresh clone, or a
  fetched working copy) none of whose tags parses, and the constraint has no \<open>@\<close>, the
  branch that logs the warning binds no \<open>best_checkout\<close>. The install then ends in an
  error in every case, the dirty-copy \<open>AtoError\<close> or the \<open>UnboundLocalError\<close> of reading
  the unbound name, and \<open>git checkout\<close> is never called: the fallback to the default
  branch that the warning announces does not happen.
\<close>

theorem install_dependency_without_semver_tags:
  "module_name = fst (split_module_spec (OPERATORS ver) module)
   \<and> module_spec = default_spec (snd (split_module_spec (OPERATORS ver) module))
   \<and> open_repo g module_name upgrade w = (Inr (Some repo), w1)
   \<and> \<not> py_in ''@'' module_spec
   \<and> (\<forall>t\<in>set (tag_names g repo). parse ver t = None)
   \<longrightarrow> fst (install_dependency g ver module upgrade w)
         = Inl (if is_dirty g repo
                then AtoError (''Module '' @ module_name @ '' has uncommitted changes. Aborting.'')
                else UnboundLocalError)
       \<and> git_calls (snd (install_dependency g ver module upgrade w)) = git_calls w1"
proof (intro impI)
  assume a: "module_name = fst (split_module_spec (OPERATORS ver) module)
   \<and> module_spec = default_spec (snd (split_module_spec (OPERATORS ver) module))
   \<and> open_repo g module_name upgrade w = (Inr (Some repo), w1)
   \<and> \<not> py_in ''@'' module_spec
   \<and> (\<forall>t\<in>set (tag_names g repo). parse ver t = None)"
  let ?w2 = "log_to WARNING
          ''No semver tags found for this module. Using latest default branch :hot_pepper:.'' w1"
  from a have n: "module_name = fst (split_module_spec (OPERATORS ver) module)" by blast
  from a have s: "module_spec = default_spec (snd (split_module_spec (OPERATORS ver) module))"
    by blast
  from a have opn: "open_repo g module_name upgrade w = (Inr (Some repo), w1)" by blast
  from a have at: "\<not> py_in ''@'' module_spec" by blast
  from a have tags: "\<forall>t\<in>set (tag_names g repo). parse ver t = None" by blast
  from at tags
  have sel: "select_checkout ver module_spec (tag_names g repo) w1 = (Inr (None, None), ?w2)"
    by (rule select_no_tags)
  from opn have "install_dependency g ver module upgrade w
      = checkout_best g module_name repo None None ?w2"
    unfolding n using sel [unfolded s]
    by (simp add: install_after_open)
  moreover have "git_calls ?w2 = git_calls w1" by (simp add: log_to_def)
  ultimately show "fst (install_dependency g ver module upgrade w)
         = Inl (if is_dirty g repo
                then AtoError (''Module '' @ module_name @ '' has uncommitted changes. Aborting.'')
                else UnboundLocalError)
       \<and> git_calls (snd (install_dependency g ver module upgrade w)) = git_calls w1"
    by (cases "is_dirty g repo") (simp_all add: checkout_best_dirty checkout_best_unbound)
qed

lemma example_splits:
  "split_module_spec example_operators ''bare'' = (''bare'', None)"
  "split_module_spec example_operators ''untagged'' = (''untagged'', None)"
  "split_module_spec example_operators ''pkg'' = (''pkg'', None)"
  "split_module_spec example_operators ''edited'' = (''edited'', None)"
  "split_module_spec example_operators ''pkg@main'' = (''pkg'', Some ''@main'')"
  "split_module_spec example_operators ''pkg^3.0.0'' = (''pkg'', Some ''^3.0.0'')"
  by (simp_all add: split_module_spec_def example_operators_def strip_def isspace_def)

lemma example_version_simps:
  "OPERATORS example_version = example_operators"
  "parse example_version = example_parse"
  "match example_version = example_match"
  by (simp_all add: example_version_def)

lemma example_git_simps:
  "clone_from example_git ''https://gitlab.atopile.io/packages/bare''
     = Some \<lparr>repo_tags = [], repo_dirty = False, repo_head = ''main''\<rparr>"
  "fetch example_git = Some"
  "tag_names example_git = repo_tags"
  "is_dirty example_git = repo_dirty"
  "head_commit example_git = repo_head"
  "checkout example_git r target = Some (r\<lparr>repo_head := target\<rparr>)"
  by (simp_all add: example_git_def)

lemma example_world_simps:
  "config_ok example_world"
  "module_dir example_world ''bare'' = None"
  "module_dir example_world ''pkg''
     = Some \<lparr>repo_tags = [''1.0.0'', ''1.2.0'', ''2.0.0''], repo_dirty = False, repo_head = ''main''\<rparr>"
  "module_dir example_world ''edited''
     = Some \<lparr>repo_tags = [''1.0.0''], repo_dirty = True, repo_head = ''main''\<rparr>"
  "module_dir example_world ''untagged''
     = Some \<lparr>repo_tags = [''nightly''], repo_dirty = False, repo_head = ''main''\<rparr>"
  "git_calls example_world = []"
  by (simp_all add: example_world_def module_dir_def)

lemma example_open:
  "fst (open_repo example_git ''bare'' False example_world)
     = Inr (Some \<lparr>repo_tags = [], repo_dirty = False, repo_head = ''main''\<rparr>)"
  "fst (open_repo example_git ''pkg'' True example_world)
     = Inr (Some \<lparr>repo_tags = [''1.0.0'', ''1.2.0'', ''2.0.0''], repo_dirty = False,
                  repo_head = ''main''\<rparr>)"
  "fst (open_repo example_git ''edited'' True example_world)
     = Inr (Some \<lparr>repo_tags = [''1.0.0''], repo_dirty = True, repo_head = ''main''\<rparr>)"
  "fst (open_repo example_git ''untagged'' True example_world)
     = Inr (Some \<lparr>repo_tags = [''nightly''], repo_dirty = False, repo_head = ''main''\<rparr>)"
  by (simp_all add: open_repo_def Let_def example_world_simps example_git_simps)

theorem install_dependency_without_semver_tags_witness:
  "fst (install_dependency example_git example_version ''bare'' False example_world)
     = Inl UnboundLocalError
   \<and> fst (install_dependency example_git example_version ''untagged'' True example_world)
     = Inl UnboundLocalError"
proof -
  let ?bare = "\<lparr>repo_tags = [], repo_dirty = False, repo_head = ''main''\<rparr>"
  let ?b1 = "snd (open_repo example_git ''bare'' False example_world)"
  let ?untagged = "\<lparr>repo_tags = [''nightly''], repo_dirty = False, repo_head = ''main''\<rparr>"
  let ?u1 = "snd (open_repo example_git ''untagged'' True example_world)"
  have n: "''bare'' = fst (split_module_spec (OPERATORS example_version) ''bare'')"
    "''untagged'' = fst (split_module_spec (OPERATORS example_version) ''untagged'')"
    by (simp_all add: example_version_simps example_splits)
  have s: "''*'' = default_spec (snd (split_module_spec (OPERATORS example_version) ''bare''))"
    "''*'' = default_spec (snd (split_module_spec (OPERATORS example_version) ''untagged''))"
    by (simp_all add: example_version_simps example_splits default_spec_def)
  have "fst (open_repo example_git ''bare'' False example_world) = Inr (Some ?bare)"
    by (rule example_open)
  then have ob: "open_repo example_git ''bare'' False example_world = (Inr (Some ?bare), ?b1)"
    by (metis prod.collapse)
  have "fst (open_repo example_git ''untagged'' True example_world) = Inr (Some ?untagged)"
    by (rule example_open)
  then have ou:
    "open_repo example_git ''untagged'' True example_world = (Inr (Some ?untagged), ?u1)"
    by (metis prod.collapse)
  have at: "\<not> py_in ''@'' ''*''" by simp
  have tb: "\<forall>t\<in>set (tag_names example_git ?bare). parse example_version t = None"
    by (simp add: example_git_simps)
  have tu: "\<forall>t\<in>set (tag_names example_git ?untagged). parse example_version t = None"
    by (simp add: example_git_simps example_version_simps example_parse_def)
  have clean: "\<not> is_dirty example_git ?bare" "\<not> is_dirty example_git ?untagged"
    by (simp_all add: example_git_simps)
  from install_dependency_without_semver_tags
    [of "''bare''" example_version "''bare''" "''*''" example_git False example_world ?bare ?b1]
    n(1) s(1) ob at tb
  have "fst (install_dependency example_git example_version ''bare'' False example_world)
         = Inl (if is_dirty example_git ?bare
                then AtoError (''Module '' @ ''bare'' @ '' has uncommitted changes. Aborting.'')
                else UnboundLocalError)"
    by blast
  with clean have r1:
    "fst (install_dependency example_git example_version ''bare'' False example_world)
       = Inl UnboundLocalError"
    by simp
  from install_dependency_without_semver_tags
    [of "''untagged''" example_version "''untagged''" "''*''" example_git True example_world
      ?untagged ?u1]
    n(2) s(2) ou at tu
  have "fst (install_dependency example_git example_version ''untagged'' True example_world)
         = Inl (if is_dirty example_git ?untagged
                then AtoError (''Module '' @ ''untagged''
                                 @ '' has uncommitted changes. Aborting.'')
                else UnboundLocalError)"
    by blast
  with clean have r2:
    "fst (install_dependency example_git example_version ''untagged'' True example_world)
       = Inl UnboundLocalError"
    by simp
  from r1 r2 show ?thesis by blast
qed

lemma install_unfold:
  assumes "module_name = fst (split_module_spec (OPERATORS ver) module)"
    and "module_spec = default_spec (snd (split_module_spec (OPERATORS ver) module))"
    and "open_repo g module_name upgrade w = (Inr (Some repo), w1)"
  shows "install_dependency g ver module upgrade w =
     (case select_checkout ver module_spec (tag_names g repo) w1 of
        (Inl e, w2) \<Rightarrow> (Inl e, w2)
      | (Inr (best_checkout, installed_semver), w2) \<Rightarrow>
          checkout_best g module_name repo best_checkout installed_semver w2)"
  using assms(3) unfolding assms(1,2) by (rule install_after_open)

text \<open>
  Claim C2, on the code. \<open>install_dependency\<close> never returns a \<open>Version\<close>. An install
  that resolves through semver matching and completes returns \<open>best_checkout\<close>, the tag
  reference whose name parses to the greatest matching version, where its annotation and the
  claim promise the version itself. An install pinned by \<open>@\<close> that completes returns
  \<open>None\<close>.
\<close>

theorem install_dependency_returns_tag_reference:
  "fst (install_dependency g ver module upgrade w) \<noteq> Inr (PyVersion v)
   \<and> (module_name = fst (split_module_spec (OPERATORS ver) module)
       \<and> module_spec = default_spec (snd (split_module_spec (OPERATORS ver) module))
       \<and> open_repo g module_name upgrade w = (Inr (Some repo), w1)
       \<and> \<not> py_in ''@'' module_spec
       \<and> (\<exists>t\<in>set (tag_names g repo). \<exists>u. parse ver t = Some u \<and> match ver module_spec u)
       \<and> \<not> is_dirty g repo
       \<and> (\<forall>t\<in>set (tag_names g repo). checkout g repo t \<noteq> None)
      \<longrightarrow> (\<exists>tag u. fst (install_dependency g ver module upgrade w) = Inr (PyTagRef tag)
             \<and> tag \<in> set (tag_names g repo) \<and> parse ver tag = Some u \<and> match ver module_spec u
             \<and> (\<forall>t\<in>set (tag_names g repo). \<forall>u'.
                   parse ver t = Some u' \<and> match ver module_spec u' \<longrightarrow> u' \<le> u)))
   \<and> (module_name = fst (split_module_spec (OPERATORS ver) module)
       \<and> module_spec = default_spec (snd (split_module_spec (OPERATORS ver) module))
       \<and> open_repo g module_name upgrade w = (Inr (Some repo), w1)
       \<and> py_in ''@'' module_spec
       \<and> \<not> is_dirty g repo
       \<and> checkout g repo (strip_chars (strip module_spec) ''@'') \<noteq> None
      \<longrightarrow> fst (install_dependency g ver module upgrade w) = Inr PyNone)"
proof (intro conjI impI)
  show "fst (install_dependency g ver module upgrade w) \<noteq> Inr (PyVersion v)"
    by (rule install_no_version)
next
  assume a: "module_name = fst (split_module_spec (OPERATORS ver) module)
       \<and> module_spec = default_spec (snd (split_module_spec (OPERATORS ver) module))
       \<and> open_repo g module_name upgrade w = (Inr (Some repo), w1)
       \<and> \<not> py_in ''@'' module_spec
       \<and> (\<exists>t\<in>set (tag_names g repo). \<exists>u. parse ver t = Some u \<and> match ver module_spec u)
       \<and> \<not> is_dirty g repo
       \<and> (\<forall>t\<in>set (tag_names g repo). checkout g repo t \<noteq> None)"
  from a have n: "module_name = fst (split_module_spec (OPERATORS ver) module)" by blast
  from a have s: "module_spec = default_spec (snd (split_module_spec (OPERATORS ver) module))"
    by blast
  from a have opn: "open_repo g module_name upgrade w = (Inr (Some repo), w1)" by blast
  from a have at: "\<not> py_in ''@'' module_spec" by blast
  from a have some: "\<exists>t\<in>set (tag_names g repo). \<exists>u. parse ver t = Some u \<and> match ver module_spec u"
    by blast
  from a have clean: "\<not> is_dirty g repo" by blast
  from a have co: "\<forall>t\<in>set (tag_names g repo). checkout g repo t \<noteq> None" by blast
  from select_max [OF at some, of w1] obtain tag u where
    sel: "select_checkout ver module_spec (tag_names g repo) w1 = (Inr (Some tag, Some u), w1)"
    and tag: "tag \<in> set (tag_names g repo)" "parse ver tag = Some u" "match ver module_spec u"
    and gr: "\<forall>t\<in>set (tag_names g repo). \<forall>u'.
                   parse ver t = Some u' \<and> match ver module_spec u' \<longrightarrow> u' \<le> u"
    by blast
  from co tag(1) obtain repo' where repo': "checkout g repo tag = Some repo'" by blast
  have "install_dependency g ver module upgrade w
          = checkout_best g module_name repo (Some tag) (Some u) w1"
    using install_unfold [OF n s opn] sel by simp
  then have "fst (install_dependency g ver module upgrade w) = Inr (PyTagRef tag)"
    using checkout_best_done(1) [OF clean repo', where n = "module_name" and sv = "Some u" and w = w1] by simp
  with tag gr show "\<exists>tag u. fst (install_dependency g ver module upgrade w) = Inr (PyTagRef tag)
             \<and> tag \<in> set (tag_names g repo) \<and> parse ver tag = Some u \<and> match ver module_spec u
             \<and> (\<forall>t\<in>set (tag_names g repo). \<forall>u'.
                   parse ver t = Some u' \<and> match ver module_spec u' \<longrightarrow> u' \<le> u)"
    by blast
next
  assume a: "module_name = fst (split_module_spec (OPERATORS ver) module)
       \<and> module_spec = default_spec (snd (split_module_spec (OPERATORS ver) module))
       \<and> open_repo g module_name upgrade w = (Inr (Some repo), w1)
       \<and> py_in ''@'' module_spec
       \<and> \<not> is_dirty g repo
       \<and> checkout g repo (strip_chars (strip module_spec) ''@'') \<noteq> None"
  from a have n: "module_name = fst (split_module_spec (OPERATORS ver) module)" by blast
  from a have s: "module_spec = default_spec (snd (split_module_spec (OPERATORS ver) module))"
    by blast
  from a have opn: "open_repo g module_name upgrade w = (Inr (Some repo), w1)" by blast
  from a have at: "py_in ''@'' module_spec" by blast
  from a have clean: "\<not> is_dirty g repo" by blast
  from a obtain repo' where
    repo': "checkout g repo (strip_chars (strip module_spec) ''@'') = Some repo'" by blast
  have "install_dependency g ver module upgrade w
          = checkout_best g module_name repo (Some (strip_chars (strip module_spec) ''@''))
              None w1"
    using install_unfold [OF n s opn] select_at [OF at, of ver "tag_names g repo" w1] by simp
  then show "fst (install_dependency g ver module upgrade w) = Inr PyNone"
    using checkout_best_done(1) [OF clean repo', where n = "module_name" and sv = None and w = w1] by simp
qed

text \<open>
  Claim C4. With no \<open>@\<close> in the constraint and at least one tag that parses to a version
  matching the constraint, the selection yields a tag and a version such that the tag parses
  to that version, the version matches, and every matching version parsed from a tag of the
  repository is at most that version.
\<close>

theorem select_checkout_greatest_match:
  "\<not> py_in ''@'' module_spec
   \<and> (\<exists>t\<in>set tags. \<exists>v. parse ver t = Some v \<and> match ver module_spec v)
   \<longrightarrow> (\<exists>tag v. select_checkout ver module_spec tags w = (Inr (Some tag, Some v), w)
          \<and> tag \<in> set tags \<and> parse ver tag = Some v \<and> match ver module_spec v
          \<and> (\<forall>t\<in>set tags. \<forall>v'.
                parse ver t = Some v' \<and> match ver module_spec v' \<longrightarrow> v' \<le> v))"
  using select_max [of module_spec tags ver w] by blast

text \<open>
  Claim C5. When \<open>install_dependency\<close> reaches the check before the checkout (it holds a
  repository and the selection raised nothing) and the working copy is dirty, it raises the
  \<open>AtoError\<close> about uncommitted changes. The module directory and the list of git calls
  are those the selection left, the working copy is in the state the check found it in, and
  the run has added no checkout.
\<close>

theorem install_dependency_dirty_aborts:
  "module_name = fst (split_module_spec (OPERATORS ver) module)
   \<and> module_spec = default_spec (snd (split_module_spec (OPERATORS ver) module))
   \<and> open_repo g module_name upgrade w = (Inr (Some repo), w1)
   \<and> select_checkout ver module_spec (tag_names g repo) w1
       = (Inr (best_checkout, installed_semver), w2)
   \<and> is_dirty g repo
   \<longrightarrow> install_dependency g ver module upgrade w
         = (Inl (AtoError (''Module '' @ module_name @ '' has uncommitted changes. Aborting.'')),
            w2)
       \<and> module_dir w2 module_name = Some repo
       \<and> modules w2 = modules w1
       \<and> git_calls w2 = git_calls w1
       \<and> (\<forall>m t. Checkout m t \<in> set (git_calls w2) \<longrightarrow> Checkout m t \<in> set (git_calls w))"
proof (intro impI)
  assume a: "module_name = fst (split_module_spec (OPERATORS ver) module)
   \<and> module_spec = default_spec (snd (split_module_spec (OPERATORS ver) module))
   \<and> open_repo g module_name upgrade w = (Inr (Some repo), w1)
   \<and> select_checkout ver module_spec (tag_names g repo) w1
       = (Inr (best_checkout, installed_semver), w2)
   \<and> is_dirty g repo"
  from a have n: "module_name = fst (split_module_spec (OPERATORS ver) module)" by blast
  from a have s: "module_spec = default_spec (snd (split_module_spec (OPERATORS ver) module))"
    by blast
  from a have opn: "open_repo g module_name upgrade w = (Inr (Some repo), w1)" by blast
  from a have sel: "select_checkout ver module_spec (tag_names g repo) w1
       = (Inr (best_checkout, installed_semver), w2)" by blast
  from a have dirty: "is_dirty g repo" by blast
  have fr: "modules w2 = modules w1" "git_calls w2 = git_calls w1"
    using select_frame [OF sel] by simp_all
  have r: "install_dependency g ver module upgrade w
         = (Inl (AtoError (''Module '' @ module_name @ '' has uncommitted changes. Aborting.'')),
            w2)"
    using install_unfold [OF n s opn] sel checkout_best_dirty [OF dirty] by simp
  have d: "module_dir w2 module_name = Some repo"
    using open_repo_Some(1) [OF opn] fr(1) by (simp add: module_dir_def)
  have c: "\<forall>m t. Checkout m t \<in> set (git_calls w2) \<longrightarrow> Checkout m t \<in> set (git_calls w)"
    using open_repo_Some(2) [OF opn] fr(2) by simp
  from r d fr c show "install_dependency g ver module upgrade w
         = (Inl (AtoError (''Module '' @ module_name @ '' has uncommitted changes. Aborting.'')),
            w2)
       \<and> module_dir w2 module_name = Some repo
       \<and> modules w2 = modules w1
       \<and> git_calls w2 = git_calls w1
       \<and> (\<forall>m t. Checkout m t \<in> set (git_calls w2) \<longrightarrow> Checkout m t \<in> set (git_calls w))"
    by blast
qed

text \<open>
  Claim C6. With \<open>upgrade\<close> false, a resolvable project configuration and a valid
  repository already at the module's path, \<open>install_dependency\<close> returns \<open>None\<close> after
  one log line: the module directory is unchanged and no git call (no fetch, no checkout)
  has been made.
\<close>

theorem install_dependency_existing_untouched:
  "module_name = fst (split_module_spec (OPERATORS ver) module)
   \<and> config_ok w
   \<and> module_dir w module_name = Some repo
   \<longrightarrow> install_dependency g ver module False w
         = (Inr PyNone,
            log_to INFO
              (module_name @ '' already exists. If you wish to upgrade, use --upgrade'') w)
       \<and> modules (snd (install_dependency g ver module False w)) = modules w
       \<and> git_calls (snd (install_dependency g ver module False w)) = git_calls w"
proof (intro impI)
  assume a: "module_name = fst (split_module_spec (OPERATORS ver) module)
   \<and> config_ok w \<and> module_dir w module_name = Some repo"
  from a have n: "module_name = fst (split_module_spec (OPERATORS ver) module)" by blast
  from a have "config_ok w" "module_dir w module_name = Some repo" by blast+
  then have "open_repo g module_name False w =
     (Inr None,
      log_to INFO (module_name @ '' already exists. If you wish to upgrade, use --upgrade'') w)"
    by (rule open_repo_no_upgrade)
  then have "install_dependency g ver module False w
         = (Inr PyNone,
            log_to INFO
              (module_name @ '' already exists. If you wish to upgrade, use --upgrade'') w)"
    unfolding n by (simp add: install_dependency_def Let_def)
  then show "install_dependency g ver module False w
         = (Inr PyNone,
            log_to INFO
              (module_name @ '' already exists. If you wish to upgrade, use --upgrade'') w)
       \<and> modules (snd (install_dependency g ver module False w)) = modules w
       \<and> git_calls (snd (install_dependency g ver module False w)) = git_calls w"
    by (simp add: log_to_def)
qed

text \<open>
  Claim C10, as the code has it. When \<open>install_dependency\<close> gets as far as selecting a
  version, that is when \<open>open_repo\<close> hands it a repository (the module was cloned just now,
  or it was there, \<open>upgrade\<close> is set and the fetch went through), the constraint has no
  \<open>@\<close>, at least one tag parses and no parsed version matches the constraint, the install
  raises the \<open>ValueError\<close> of \<open>max\<close> on an empty list, in the state the clone or fetch
  left.
\<close>

theorem install_dependency_no_matching_version:
  "module_name = fst (split_module_spec (OPERATORS ver) module)
   \<and> module_spec = default_spec (snd (split_module_spec (OPERATORS ver) module))
   \<and> open_repo g module_name upgrade w = (Inr (Some repo), w1)
   \<and> \<not> py_in ''@'' module_spec
   \<and> (\<exists>t\<in>set (tag_names g repo). parse ver t \<noteq> None)
   \<and> (\<forall>t\<in>set (tag_names g repo). \<forall>v. parse ver t = Some v \<longrightarrow> \<not> match ver module_spec v)
   \<longrightarrow> install_dependency g ver module upgrade w = (Inl ValueError, w1)"
proof (intro impI)
  assume a: "module_name = fst (split_module_spec (OPERATORS ver) module)
   \<and> module_spec = default_spec (snd (split_module_spec (OPERATORS ver) module))
   \<and> open_repo g module_name upgrade w = (Inr (Some repo), w1)
   \<and> \<not> py_in ''@'' module_spec
   \<and> (\<exists>t\<in>set (tag_names g repo). parse ver t \<noteq> None)
   \<and> (\<forall>t\<in>set (tag_names g repo). \<forall>v. parse ver t = Some v \<longrightarrow> \<not> match ver module_spec v)"
  from a have n: "module_name = fst (split_module_spec (OPERATORS ver) module)" by blast
  from a have s: "module_spec = default_spec (snd (split_module_spec (OPERATORS ver) module))"
    by blast
  from a have opn: "open_repo g module_name upgrade w = (Inr (Some repo), w1)" by blast
  from a have at: "\<not> py_in ''@'' module_spec" by blast
  from a have some: "\<exists>t\<in>set (tag_names g repo). parse ver t \<noteq> None" by blast
  from a have none: "\<forall>t\<in>set (tag_names g repo). \<forall>v. parse ver t = Some v
      \<longrightarrow> \<not> match ver module_spec v" by blast
  have "select_checkout ver module_spec (tag_names g repo) w1 = (Inl ValueError, w1)"
    using at some none by (rule select_no_match)
  with install_unfold [OF n s opn]
  show "install_dependency g ver module upgrade w = (Inl ValueError, w1)" by simp
qed


lemma example_greatest:
  assumes "tag \<in> set [''1.0.0'', ''1.2.0'', ''2.0.0'']"
    and "example_parse tag = Some u" and "example_match ''^1.0.0'' u"
    and "\<forall>t\<in>set [''1.0.0'', ''1.2.0'', ''2.0.0'']. \<forall>u'.
           example_parse t = Some u' \<and> example_match ''^1.0.0'' u' \<longrightarrow> u' \<le> u"
  shows "tag = ''1.2.0'' \<and> u = (1, 2, 0)"
proof -
  have "example_parse ''1.2.0'' = Some (1, 2, 0) \<and> example_match ''^1.0.0'' (1, 2, 0)"
    by (simp add: example_parse_def example_match_def)
  with assms(4) have ge: "(1, 2, 0) \<le> u" by simp
  from assms(1) consider "tag = ''1.0.0''" | "tag = ''1.2.0''" | "tag = ''2.0.0''" by auto
  then show ?thesis
  proof cases
    case 1
    with assms(2) have "u = (1, 0, 0)" by (simp add: example_parse_def)
    with ge show ?thesis by simp
  next
    case 2
    with assms(2) show ?thesis by (simp add: example_parse_def)
  next
    case 3
    with assms(2,3) show ?thesis by (simp add: example_parse_def example_match_def)
  qed
qed

theorem install_dependency_returns_tag_reference_witness:
  "fst (install_dependency example_git example_version ''pkg^1.0.0'' True example_world)
     = Inr (PyTagRef ''1.2.0'')
   \<and> fst (install_dependency example_git example_version ''pkg^1.0.0'' True example_world)
     \<noteq> Inr (PyVersion (1, 2, 0))
   \<and> fst (install_dependency example_git example_version ''pkg@main'' True example_world)
     = Inr PyNone"
proof -
  let ?repo = "\<lparr>repo_tags = [''1.0.0'', ''1.2.0'', ''2.0.0''], repo_dirty = False,
                repo_head = ''main''\<rparr>"
  let ?w1 = "snd (open_repo example_git ''pkg'' True example_world)"
  have n: "''pkg'' = fst (split_module_spec (OPERATORS example_version) ''pkg^1.0.0'')"
    by (simp add: example_version_simps split_pkg)
  have s: "''^1.0.0''
      = default_spec (snd (split_module_spec (OPERATORS example_version) ''pkg^1.0.0''))"
    by (simp add: example_version_simps split_pkg default_spec_def)
  have n': "''pkg'' = fst (split_module_spec (OPERATORS example_version) ''pkg@main'')"
    by (simp add: example_version_simps example_splits)
  have s': "''@main''
      = default_spec (snd (split_module_spec (OPERATORS example_version) ''pkg@main''))"
    by (simp add: example_version_simps example_splits default_spec_def)
  have "fst (open_repo example_git ''pkg'' True example_world) = Inr (Some ?repo)"
    by (rule example_open)
  then have opn: "open_repo example_git ''pkg'' True example_world = (Inr (Some ?repo), ?w1)"
    by (metis prod.collapse)
  have tn: "tag_names example_git ?repo = [''1.0.0'', ''1.2.0'', ''2.0.0'']"
    by (simp add: example_git_simps)
  have at: "\<not> py_in ''@'' ''^1.0.0''" by simp
  have at': "py_in ''@'' ''@main''" by simp
  have "example_parse ''1.0.0'' = Some (1, 0, 0) \<and> example_match ''^1.0.0'' (1, 0, 0)"
    by (simp add: example_parse_def example_match_def)
  then have some: "\<exists>t\<in>set (tag_names example_git ?repo). \<exists>u.
      parse example_version t = Some u \<and> match example_version ''^1.0.0'' u"
    unfolding tn example_version_simps by (intro bexI [of _ "''1.0.0''"] exI [of _ "(1, 0, 0)"]) simp_all
  have clean: "\<not> is_dirty example_git ?repo" by (simp add: example_git_simps)
  have co: "\<forall>t\<in>set (tag_names example_git ?repo). checkout example_git ?repo t \<noteq> None"
    by (simp add: example_git_simps)
  have co': "checkout example_git ?repo (strip_chars (strip ''@main'') ''@'') \<noteq> None"
    by (simp add: example_git_simps)
  note semver = install_dependency_returns_tag_reference
    [of example_git example_version "''pkg^1.0.0''" True example_world "(1, 2, 0)"
      "''pkg''" "''^1.0.0''" ?repo ?w1]
  note pinned = install_dependency_returns_tag_reference
    [of example_git example_version "''pkg@main''" True example_world "(1, 2, 0)"
      "''pkg''" "''@main''" ?repo ?w1]
  from semver n s opn at some clean co obtain tag u where
    r: "fst (install_dependency example_git example_version ''pkg^1.0.0'' True example_world)
          = Inr (PyTagRef tag)"
    and t: "tag \<in> set (tag_names example_git ?repo)" "parse example_version tag = Some u"
      "match example_version ''^1.0.0'' u"
      "\<forall>t\<in>set (tag_names example_git ?repo). \<forall>u'.
          parse example_version t = Some u' \<and> match example_version ''^1.0.0'' u' \<longrightarrow> u' \<le> u"
    by blast
  from t have "tag = ''1.2.0'' \<and> u = (1, 2, 0)"
    unfolding tn example_version_simps by (rule example_greatest)
  with r have r1:
    "fst (install_dependency example_git example_version ''pkg^1.0.0'' True example_world)
       = Inr (PyTagRef ''1.2.0'')"
    by simp
  from semver have r2:
    "fst (install_dependency example_git example_version ''pkg^1.0.0'' True example_world)
       \<noteq> Inr (PyVersion (1, 2, 0))"
    by blast
  from pinned n' s' opn at' clean co' have r3:
    "fst (install_dependency example_git example_version ''pkg@main'' True example_world)
       = Inr PyNone"
    by blast
  from r1 r2 r3 show ?thesis by blast
qed

theorem select_checkout_greatest_match_witness:
  "select_checkout example_version ''^1.0.0'' [''1.0.0'', ''1.2.0'', ''2.0.0''] example_world
     = (Inr (Some ''1.2.0'', Some (1, 2, 0)), example_world)"
proof -
  have at: "\<not> py_in ''@'' ''^1.0.0''" by simp
  have "example_parse ''1.0.0'' = Some (1, 0, 0) \<and> example_match ''^1.0.0'' (1, 0, 0)"
    by (simp add: example_parse_def example_match_def)
  then have some: "\<exists>t\<in>set [''1.0.0'', ''1.2.0'', ''2.0.0'']. \<exists>v.
      parse example_version t = Some v \<and> match example_version ''^1.0.0'' v"
    unfolding example_version_simps by (intro bexI [of _ "''1.0.0''"] exI [of _ "(1, 0, 0)"]) simp_all
  from select_checkout_greatest_match
    [of "''^1.0.0''" "[''1.0.0'', ''1.2.0'', ''2.0.0'']" example_version example_world]
    at some
  obtain tag v where
    r: "select_checkout example_version ''^1.0.0'' [''1.0.0'', ''1.2.0'', ''2.0.0''] example_world
          = (Inr (Some tag, Some v), example_world)"
    and t: "tag \<in> set [''1.0.0'', ''1.2.0'', ''2.0.0'']" "parse example_version tag = Some v"
      "match example_version ''^1.0.0'' v"
      "\<forall>t\<in>set [''1.0.0'', ''1.2.0'', ''2.0.0'']. \<forall>v'.
          parse example_version t = Some v' \<and> match example_version ''^1.0.0'' v' \<longrightarrow> v' \<le> v"
    by blast
  from t have "tag = ''1.2.0'' \<and> v = (1, 2, 0)"
    unfolding example_version_simps by (rule example_greatest)
  with r show ?thesis by simp
qed

theorem install_dependency_dirty_aborts_witness:
  "fst (install_dependency example_git example_version ''edited'' True example_world)
     = Inl (AtoError ''Module edited has uncommitted changes. Aborting.'')
   \<and> module_dir (snd (install_dependency example_git example_version ''edited'' True
                          example_world)) ''edited''
       = Some \<lparr>repo_tags = [''1.0.0''], repo_dirty = True, repo_head = ''main''\<rparr>
   \<and> (\<forall>m t. Checkout m t
         \<notin> set (git_calls (snd (install_dependency example_git example_version ''edited'' True
                                    example_world))))"
proof -
  let ?repo = "\<lparr>repo_tags = [''1.0.0''], repo_dirty = True, repo_head = ''main''\<rparr>"
  let ?w1 = "snd (open_repo example_git ''edited'' True example_world)"
  let ?w2 = "snd (select_checkout example_version ''*'' (tag_names example_git ?repo) ?w1)"
  have n: "''edited'' = fst (split_module_spec (OPERATORS example_version) ''edited'')"
    by (simp add: example_version_simps example_splits)
  have s: "''*'' = default_spec (snd (split_module_spec (OPERATORS example_version) ''edited''))"
    by (simp add: example_version_simps example_splits default_spec_def)
  have "fst (open_repo example_git ''edited'' True example_world) = Inr (Some ?repo)"
    by (rule example_open)
  then have opn: "open_repo example_git ''edited'' True example_world = (Inr (Some ?repo), ?w1)"
    by (metis prod.collapse)
  have "fst (select_checkout example_version ''*'' (tag_names example_git ?repo) ?w1)
      = Inr (Some ''1.0.0'', Some (1, 0, 0))"
    by (simp add: select_checkout_def semver_to_tag_def example_git_simps example_version_simps
        example_parse_def example_match_def)
  then have sel: "select_checkout example_version ''*'' (tag_names example_git ?repo) ?w1
      = (Inr (Some ''1.0.0'', Some (1, 0, 0)), ?w2)"
    by (metis prod.collapse)
  have dirty: "is_dirty example_git ?repo" by (simp add: example_git_simps)
  from install_dependency_dirty_aborts
    [of "''edited''" example_version "''edited''" "''*''" example_git True example_world
      ?repo ?w1 "Some ''1.0.0''" "Some (1, 0, 0)" ?w2]
    n s opn sel dirty
  have r: "install_dependency example_git example_version ''edited'' True example_world
         = (Inl (AtoError (''Module '' @ ''edited'' @ '' has uncommitted changes. Aborting.'')),
            ?w2)"
    and d: "module_dir ?w2 ''edited'' = Some ?repo"
    and c: "\<forall>m t. Checkout m t \<in> set (git_calls ?w2)
              \<longrightarrow> Checkout m t \<in> set (git_calls example_world)"
    by blast+
  from c have "\<forall>m t. Checkout m t \<notin> set (git_calls ?w2)"
    by (simp add: example_world_simps)
  with r d show ?thesis by simp
qed

theorem install_dependency_existing_untouched_witness:
  "fst (install_dependency example_git example_version ''pkg'' False example_world) = Inr PyNone
   \<and> modules (snd (install_dependency example_git example_version ''pkg'' False example_world))
       = modules example_world
   \<and> git_calls (snd (install_dependency example_git example_version ''pkg'' False example_world))
       = []"
proof -
  let ?repo = "\<lparr>repo_tags = [''1.0.0'', ''1.2.0'', ''2.0.0''], repo_dirty = False,
                repo_head = ''main''\<rparr>"
  have n: "''pkg'' = fst (split_module_spec (OPERATORS example_version) ''pkg'')"
    by (simp add: example_version_simps example_splits)
  have c: "config_ok example_world" by (rule example_world_simps)
  have d: "module_dir example_world ''pkg'' = Some ?repo" by (rule example_world_simps)
  from install_dependency_existing_untouched
    [of "''pkg''" example_version "''pkg''" example_world ?repo example_git]
    n c d
  have "install_dependency example_git example_version ''pkg'' False example_world
         = (Inr PyNone,
            log_to INFO
              (''pkg'' @ '' already exists. If you wish to upgrade, use --upgrade'')
              example_world)"
    and "modules (snd (install_dependency example_git example_version ''pkg'' False
                         example_world)) = modules example_world"
    and "git_calls (snd (install_dependency example_git example_version ''pkg'' False
                           example_world)) = git_calls example_world"
    by blast+
  then show ?thesis by (simp add: example_world_simps)
qed

theorem install_dependency_no_matching_version_witness:
  "fst (install_dependency example_git example_version ''pkg^3.0.0'' True example_world)
     = Inl ValueError"
proof -
  let ?repo = "\<lparr>repo_tags = [''1.0.0'', ''1.2.0'', ''2.0.0''], repo_dirty = False,
                repo_head = ''main''\<rparr>"
  let ?w1 = "snd (open_repo example_git ''pkg'' True example_world)"
  have n: "''pkg'' = fst (split_module_spec (OPERATORS example_version) ''pkg^3.0.0'')"
    by (simp add: example_version_simps example_splits)
  have s: "''^3.0.0''
      = default_spec (snd (split_module_spec (OPERATORS example_version) ''pkg^3.0.0''))"
    by (simp add: example_version_simps example_splits default_spec_def)
  have "fst (open_repo example_git ''pkg'' True example_world) = Inr (Some ?repo)"
    by (rule example_open)
  then have opn: "open_repo example_git ''pkg'' True example_world = (Inr (Some ?repo), ?w1)"
    by (metis prod.collapse)
  have at: "\<not> py_in ''@'' ''^3.0.0''" by simp
  have some: "\<exists>t\<in>set (tag_names example_git ?repo). parse example_version t \<noteq> None"
    by (simp add: example_git_simps example_version_simps example_parse_def)
  have none: "\<forall>t\<in>set (tag_names example_git ?repo). \<forall>v.
      parse example_version t = Some v \<longrightarrow> \<not> match example_version ''^3.0.0'' v"
    by (simp add: example_version_simps example_match_def)
  from install_dependency_no_matching_version
    [of "''pkg''" example_version "''pkg^3.0.0''" "''^3.0.0''" example_git True example_world
      ?repo ?w1]
    n s opn at some none
  have "install_dependency example_git example_version ''pkg^3.0.0'' True example_world
      = (Inl ValueError, ?w1)"
    by blast
  then show ?thesis by simp
qed

text \<open>
  Claim C10 as stated fails where the module is already installed and \<open>upgrade\<close> is not
  set: the tags of \<open>pkg\<close> parse and none matches \<open>^3.0.0\<close>, but the install returns
  \<open>None\<close> before it looks at any tag.
\<close>

theorem install_dependency_existing_copy_counterexample:
  "module_dir example_world ''pkg''
     = Some \<lparr>repo_tags = [''1.0.0'', ''1.2.0'', ''2.0.0''], repo_dirty = False,
             repo_head = ''main''\<rparr>
   \<and> split_module_spec example_operators ''pkg^3.0.0'' = (''pkg'', Some ''^3.0.0'')
   \<and> \<not> py_in ''@'' ''^3.0.0''
   \<and> example_parse ''1.0.0'' = Some (1, 0, 0) \<and> \<not> example_match ''^3.0.0'' (1, 0, 0)
   \<and> example_parse ''1.2.0'' = Some (1, 2, 0) \<and> \<not> example_match ''^3.0.0'' (1, 2, 0)
   \<and> example_parse ''2.0.0'' = Some (2, 0, 0) \<and> \<not> example_match ''^3.0.0'' (2, 0, 0)
   \<and> fst (install_dependency example_git example_version ''pkg^3.0.0'' False example_world)
       = Inr PyNone"
proof -
  have "config_ok example_world" by (rule example_world_simps)
  moreover have "module_dir example_world ''pkg''
     = Some \<lparr>repo_tags = [''1.0.0'', ''1.2.0'', ''2.0.0''], repo_dirty = False,
             repo_head = ''main''\<rparr>"
    by (rule example_world_simps)
  ultimately have "open_repo example_git ''pkg'' False example_world =
     (Inr None,
      log_to INFO (''pkg'' @ '' already exists. If you wish to upgrade, use --upgrade'')
        example_world)"
    by (rule open_repo_no_upgrade)
  then have "fst (install_dependency example_git example_version ''pkg^3.0.0'' False
                    example_world) = Inr PyNone"
    by (simp add: install_dependency_def Let_def example_version_simps example_splits)
  then show ?thesis
    by (simp add: example_world_simps example_splits example_parse_def example_match_def)
qed


section \<open>Properties of the footprint installer\<close>

lemma startswith_C: "startswith s ''C'' \<longleftrightarrow> (\<exists>ds. s = CHR ''C'' # ds)"
  by (cases s) auto

lemma ascii_digit_isdigit: "ascii_digit c \<Longrightarrow> isdigit_char c"
  by (simp add: ascii_digit_def isdigit_char_def Let_def)

lemma matches_C_digits_valid:
  assumes "matches_C_digits s"
  shows "startswith s ''C'' \<and> isdigit (drop 1 s)"
proof -
  from assms obtain ds where s: "s = CHR ''C'' # ds" and ds: "ds \<noteq> []" "list_all ascii_digit ds"
    by (auto simp: matches_C_digits_def split: list.splits)
  from ds(2) have "list_all isdigit_char ds"
    by (auto simp: list_all_iff ascii_digit_isdigit)
  with s ds(1) show ?thesis by (simp add: isdigit_def)
qed

lemma install_jlcpcb_invalid:
  assumes "\<not> (startswith (upper cid) ''C'' \<and> isdigit (drop 1 (upper cid)))"
  shows "install_jlcpcb env cid
     = (Inl (AtoError (''Component id '' @ upper cid @ '' is invalid. Aborting.'')), [])"
  using assms by (auto simp: install_jlcpcb_def Let_def)

lemma install_jlcpcb_valid:
  assumes "startswith (upper cid) ''C''" and "isdigit (drop 1 (upper cid))"
  shows "snd (install_jlcpcb env cid) \<noteq> []"
  using assms by (auto simp: install_jlcpcb_def Let_def split: option.splits prod.splits)

lemma upper_examples:
  "upper ''c123'' = ''C123''"
  "upper ''X123'' = ''X123''"
  "upper ''C12A'' = ''C12A''"
  "upper [CHR ''C'', CHR 0xB2] = [CHR ''C'', CHR 0xB2]"
  by code_simp+

text \<open>
  Claim C9, on the code. \<open>install_jlcpcb\<close> uppercases the id and then asks for a leading
  \<open>C\<close> followed by a non-empty rest that \<open>str.isdigit\<close> accepts. An id that fails this
  raises the \<open>AtoError\<close> before anything else is done (no repository is opened, no tool is
  run), and every id that matches the pattern \<open>C\<close>, digits 0 to 9 gets past the check:
  \<open>c123\<close> becomes \<open>C123\<close> and passes, \<open>X123\<close> and \<open>C12A\<close> are rejected. But
  \<open>isdigit\<close> also accepts digits outside 0 to 9: the id made of \<open>C\<close> and the
  superscript two (U+00B2) does not match the pattern and still gets past the check.
\<close>

theorem install_jlcpcb_validation:
  "(\<not> (\<exists>ds. upper cid = CHR ''C'' # ds \<and> ds \<noteq> [] \<and> list_all isdigit_char ds)
      \<longrightarrow> install_jlcpcb env cid
            = (Inl (AtoError (''Component id '' @ upper cid @ '' is invalid. Aborting.'')), []))
   \<and> (matches_C_digits (upper cid) \<longrightarrow> snd (install_jlcpcb env cid) \<noteq> [])
   \<and> upper ''c123'' = ''C123'' \<and> matches_C_digits ''C123''
   \<and> install_jlcpcb env ''X123''
       = (Inl (AtoError ''Component id X123 is invalid. Aborting.''), [])
   \<and> install_jlcpcb env ''C12A''
       = (Inl (AtoError ''Component id C12A is invalid. Aborting.''), [])
   \<and> \<not> matches_C_digits (upper [CHR ''C'', CHR 0xB2])
   \<and> snd (install_jlcpcb env [CHR ''C'', CHR 0xB2]) \<noteq> []"
proof (intro conjI impI)
  assume a: "\<not> (\<exists>ds. upper cid = CHR ''C'' # ds \<and> ds \<noteq> [] \<and> list_all isdigit_char ds)"
  have "\<not> (startswith (upper cid) ''C'' \<and> isdigit (drop 1 (upper cid)))"
  proof
    assume "startswith (upper cid) ''C'' \<and> isdigit (drop 1 (upper cid))"
    then obtain ds where "upper cid = CHR ''C'' # ds" "isdigit ds"
      by (auto simp: startswith_C)
    with a show False by (simp add: isdigit_def)
  qed
  then show "install_jlcpcb env cid
            = (Inl (AtoError (''Component id '' @ upper cid @ '' is invalid. Aborting.'')), [])"
    by (rule install_jlcpcb_invalid)
next
  assume "matches_C_digits (upper cid)"
  then have "startswith (upper cid) ''C'' \<and> isdigit (drop 1 (upper cid))"
    by (rule matches_C_digits_valid)
  then show "snd (install_jlcpcb env cid) \<noteq> []"
    by (intro install_jlcpcb_valid) simp_all
next
  show "upper ''c123'' = ''C123''" by (rule upper_examples)
next
  show "matches_C_digits ''C123''"
    by (simp add: matches_C_digits_def ascii_digit_def)
next
  have "\<not> (startswith (upper ''X123'') ''C'' \<and> isdigit (drop 1 (upper ''X123'')))"
    by (simp add: upper_examples)
  from install_jlcpcb_invalid [OF this, of env]
  show "install_jlcpcb env ''X123''
       = (Inl (AtoError ''Component id X123 is invalid. Aborting.''), [])"
    by (simp add: upper_examples)
next
  have "\<not> (startswith (upper ''C12A'') ''C'' \<and> isdigit (drop 1 (upper ''C12A'')))"
    by (simp add: upper_examples isdigit_def isdigit_char_def)
  from install_jlcpcb_invalid [OF this, of env]
  show "install_jlcpcb env ''C12A''
       = (Inl (AtoError ''Component id C12A is invalid. Aborting.''), [])"
    by (simp add: upper_examples)
next
  show "\<not> matches_C_digits (upper [CHR ''C'', CHR 0xB2])"
    by (simp add: upper_examples matches_C_digits_def ascii_digit_def)
next
  have "startswith (upper [CHR ''C'', CHR 0xB2]) ''C''"
    and "isdigit (drop 1 (upper [CHR ''C'', CHR 0xB2]))"
    by (simp_all add: upper_examples isdigit_def isdigit_char_def)
  then show "snd (install_jlcpcb env [CHR ''C'', CHR 0xB2]) \<noteq> []"
    by (rule install_jlcpcb_valid)
qed

theorem install_jlcpcb_validation_witness:
  "snd (install_jlcpcb example_env ''c123'') \<noteq> []
   \<and> install_jlcpcb example_env ''x12a''
       = (Inl (AtoError ''Component id X12A is invalid. Aborting.''), [])
   \<and> snd (install_jlcpcb example_env [CHR ''C'', CHR 0xB2]) \<noteq> []
   \<and> fst (install_jlcpcb example_env [CHR ''C'', CHR 0xB2]) = Inr ()"
proof -
  have u: "upper ''c123'' = ''C123''" "upper ''x12a'' = ''X12A''" by code_simp+
  have m: "matches_C_digits (upper ''c123'')"
    by (simp add: u matches_C_digits_def ascii_digit_def)
  have n: "\<not> (\<exists>ds. upper ''x12a'' = CHR ''C'' # ds \<and> ds \<noteq> [] \<and> list_all isdigit_char ds)"
    by (simp add: u)
  from install_jlcpcb_validation [of "''c123''" example_env] m
  have r1: "snd (install_jlcpcb example_env ''c123'') \<noteq> []" by blast
  from install_jlcpcb_validation [of "''x12a''" example_env] n
  have "install_jlcpcb example_env ''x12a''
       = (Inl (AtoError (''Component id '' @ upper ''x12a'' @ '' is invalid. Aborting.'')), [])"
    by blast
  then have r2: "install_jlcpcb example_env ''x12a''
       = (Inl (AtoError ''Component id X12A is invalid. Aborting.''), [])"
    by (simp add: u)
  from install_jlcpcb_validation [of "''c123''" example_env]
  have r3: "snd (install_jlcpcb example_env [CHR ''C'', CHR 0xB2]) \<noteq> []" by blast
  have r4: "fst (install_jlcpcb example_env [CHR ''C'', CHR 0xB2]) = Inr ()"
    by (simp add: install_jlcpcb_def Let_def upper_examples isdigit_def isdigit_char_def
        example_env_def)
  from r1 r2 r3 r4 show ?thesis by blast
qed

end
